theory Spec2Isabelle
  imports Main "HOL-Library.Word"
begin

section \<open>SIGEM local store (APIdb.js): values\<close>

text \<open>
  The store of APIdb.js is embedded over explicit JavaScript values. A primitive that the
  code reads through \<open>String(v)\<close>, \<open>Number(v)\<close>, \<open>v || ""\<close>, \<open>v ?? w\<close> or \<open>toInt(v)\<close>
  is a \<open>raw\<close> value: \<open>undefined\<close>, \<open>null\<close>, a boolean, a finite integer number or a
  string. Numbers are mathematical integers (the doubles of JavaScript below the range
  where \<open>String\<close> switches to exponent notation), strings are lists of 8-bit characters:
  the code units below 256.
\<close>

datatype raw = RUndef | RNull | RBool bool | RNum int | RStr string

text \<open>
  White space as \<open>String.prototype.trim\<close>, \<open>parseInt\<close> and \<open>Number\<close> skip it: of the white
  space and line terminators of the language, the code units below 256 are TAB, LF, VT,
  FF, CR, the space and the no-break space.
\<close>

definition is_space :: "char \<Rightarrow> bool" where
  "is_space c = (c \<in> set [CHR '' '', CHR 0x09, CHR 0x0A, CHR 0x0B, CHR 0x0C, CHR 0x0D, CHR 0xA0])"

definition is_digit :: "char \<Rightarrow> bool" where
  "is_digit c = (c \<in> set ''0123456789'')"

text \<open>The value of a decimal digit, from its character code.\<close>

definition digit_val :: "char \<Rightarrow> int" where
  "digit_val c = of_char c - 48"

definition digit_char :: "nat \<Rightarrow> char" where
  "digit_char n = ''0123456789abcdef'' ! n"

fun digits_val :: "int \<Rightarrow> string \<Rightarrow> int" where
  "digits_val acc [] = acc"
| "digits_val acc (c # cs) = digits_val (acc * 10 + digit_val c) cs"

definition trim :: "string \<Rightarrow> string" where
  "trim s = rev (dropWhile is_space (rev (dropWhile is_space s)))"

text \<open>
  \<open>parseInt(s, 10)\<close>: leading white space, an optional sign, then the longest run of
  decimal digits; \<open>NaN\<close> (here \<open>None\<close>) when that run is empty. What follows the digits is
  ignored.
\<close>

definition parseInt :: "string \<Rightarrow> int option" where
  "parseInt s =
     (let t = dropWhile is_space s;
          neg = (case t of [] \<Rightarrow> False | c # _ \<Rightarrow> c = CHR ''-'');
          u = (case t of [] \<Rightarrow> [] | c # r \<Rightarrow> if c = CHR ''-'' \<or> c = CHR ''+'' then r else t);
          ds = takeWhile is_digit u
      in if ds = [] then None
         else Some (if neg then - digits_val 0 ds else digits_val 0 ds))"

text \<open>A number that is not negative printed in base 10 and in base 16.\<close>

function dec :: "int \<Rightarrow> string" where
  "dec n = (if n < 10 then [digit_char (nat n)]
            else dec (n div 10) @ [digit_char (nat (n mod 10))])"
  by auto
termination
  by (relation "measure nat") auto

declare dec.simps [simp del]

function hex :: "int \<Rightarrow> string" where
  "hex n = (if n < 16 then [digit_char (nat n)]
            else hex (n div 16) @ [digit_char (nat (n mod 16))])"
  by auto
termination
  by (relation "measure nat") auto

declare hex.simps [simp del]

definition show_int :: "int \<Rightarrow> string" where
  "show_int n = (if n < 0 then CHR ''-'' # dec (- n) else dec n)"

text \<open>\<open>String(v)\<close> and the template literal \<open>`${v}`\<close>.\<close>

fun js_String :: "raw \<Rightarrow> string" where
  "js_String RUndef = ''undefined''"
| "js_String RNull = ''null''"
| "js_String (RBool b) = (if b then ''true'' else ''false'')"
| "js_String (RNum n) = show_int n"
| "js_String (RStr s) = s"

text \<open>Truthiness, for \<open>v || w\<close> and \<open>!v\<close>: \<open>undefined\<close>, \<open>null\<close>, \<open>0\<close> and \<open>""\<close> are falsy.\<close>

fun truthy :: "raw \<Rightarrow> bool" where
  "truthy RUndef = False"
| "truthy RNull = False"
| "truthy (RBool b) = b"
| "truthy (RNum n) = (n \<noteq> 0)"
| "truthy (RStr s) = (s \<noteq> [])"

text \<open>\<open>v ?? w\<close>: the right operand only for \<open>undefined\<close> and \<open>null\<close>.\<close>

fun nullish :: "raw \<Rightarrow> raw \<Rightarrow> raw" where
  "nullish RUndef w = w"
| "nullish RNull w = w"
| "nullish v w = v"

text \<open>
  \<open>const toInt = (v) => { const n = parseInt(String(v).trim(), 10);
  return Number.isFinite(n) ? n : undefined; }\<close>
\<close>

definition toInt :: "raw \<Rightarrow> int option" where
  "toInt v = parseInt (trim (js_String v))"

text \<open>
  The candidate test of the ingestion paths,
  \<open>Number.parseInt?.(String(v || "").trim(), 10)\<close>: a falsy candidate (so also the
  number \<open>0\<close>) reads as the empty string and resolves to nothing.
\<close>

definition candidateInt :: "raw \<Rightarrow> int option" where
  "candidateInt v = parseInt (trim (js_String (if truthy v then v else RStr [])))"

text \<open>
  \<open>Number(v)\<close> yields a double: \<open>NaN\<close>, an infinity, or a finite value, kept here as a
  significand and a binary exponent (\<open>JFin m u\<close> is \<open>m * 2^u\<close>).
\<close>

datatype jsnum = JNaN | JInf | JFin int int

text \<open>The number of binary digits of a positive number.\<close>

function bitlen :: "int \<Rightarrow> int" where
  "bitlen n = (if n \<le> 0 then 0 else 1 + bitlen (n div 2))"
  by auto
termination
  by (relation "measure nat") auto

declare bitlen.simps [simp del]

text \<open>The fraction \<open>n/d\<close> divided by \<open>2^k\<close>, as a numerator and a denominator.\<close>

definition scaled :: "int \<Rightarrow> int \<Rightarrow> int \<Rightarrow> int \<times> int" where
  "scaled n d k = (n * 2 ^ nat (- k), d * 2 ^ nat k)"

text \<open>
  The Number value of the fraction \<open>n/d\<close> (\<open>n\<close> not negative, \<open>d\<close> positive): the double
  nearest to it, a tie going to the even significand. With \<open>2^e \<le> n/d < 2^(e+1)\<close> the doubles around \<open>n/d\<close> are the multiples of
  \<open>2^(e-52)\<close>, and of \<open>2^-1074\<close> below \<open>2^-1022\<close>; a result of \<open>2^1024\<close> or more is an infinity.
\<close>

definition nearest_double :: "int \<Rightarrow> int \<Rightarrow> jsnum" where
  "nearest_double n d =
     (if n = 0 then JFin 0 0
      else
        (let e0 = bitlen n - bitlen d;
             e = (if snd (scaled n d e0) \<le> fst (scaled n d e0) then e0 else e0 - 1);
             u = max e (- 1022) - 52;
             a = fst (scaled n d u);
             b = snd (scaled n d u);
             m = (if b < 2 * (a mod b) \<or> (2 * (a mod b) = b \<and> odd (a div b))
                  then a div b + 1 else a div b)
         in if 0 \<le> u \<and> 2 ^ 1024 \<le> m * 2 ^ nat u then JInf else JFin m u))"

text \<open>
  A string as a numeric literal. \<open>decimal_literal\<close> reads an unsigned decimal literal
  (digits, an optional fraction, an optional exponent part; at least one digit before the
  exponent) as a fraction; \<open>radix_literal\<close> reads the digits of a literal with prefix
  \<open>0x\<close>, \<open>0o\<close> or \<open>0b\<close>.
\<close>

definition decimal_literal :: "string \<Rightarrow> (int \<times> int) option" where
  "decimal_literal s =
     (let ip = takeWhile is_digit s;
          r1 = dropWhile is_digit s;
          dot = (case r1 of c # _ \<Rightarrow> c = CHR ''.'' | [] \<Rightarrow> False);
          fp = (if dot then takeWhile is_digit (tl r1) else []);
          r2 = (if dot then dropWhile is_digit (tl r1) else r1);
          mant = digits_val 0 (ip @ fp)
      in if ip = [] \<and> fp = [] then None
         else
           (case r2 of
              [] \<Rightarrow> Some (mant, 10 ^ length fp)
            | c # r3 \<Rightarrow>
                if c = CHR ''e'' \<or> c = CHR ''E'' then
                  (let ds = (case r3 of
                               sg # r4 \<Rightarrow> if sg = CHR ''+'' \<or> sg = CHR ''-'' then r4 else r3
                             | [] \<Rightarrow> [])
                   in if ds = [] \<or> \<not> list_all is_digit ds then None
                      else if hd r3 = CHR ''-''
                      then Some (mant, 10 ^ (length fp + nat (digits_val 0 ds)))
                      else Some (mant * 10 ^ nat (digits_val 0 ds), 10 ^ length fp))
                else None))"

definition radix_digit :: "char \<Rightarrow> int" where
  "radix_digit c =
     (if is_digit c then digit_val c
      else if c \<in> set ''abcdef'' then of_char c - 87
      else if c \<in> set ''ABCDEF'' then of_char c - 55
      else 16)"

definition radix_literal :: "int \<Rightarrow> string \<Rightarrow> int option" where
  "radix_literal b ds =
     (if ds \<noteq> [] \<and> list_all (\<lambda>c. radix_digit c < b) ds
      then Some (fold (\<lambda>c acc. acc * b + radix_digit c) ds 0)
      else None)"

definition radix_of :: "char \<Rightarrow> int option" where
  "radix_of c =
     (if c = CHR ''x'' \<or> c = CHR ''X'' then Some 16
      else if c = CHR ''o'' \<or> c = CHR ''O'' then Some 8
      else if c = CHR ''b'' \<or> c = CHR ''B'' then Some 2
      else None)"

definition negate :: "jsnum \<Rightarrow> jsnum" where
  "negate x = (case x of JFin m u \<Rightarrow> JFin (- m) u | _ \<Rightarrow> x)"

text \<open>
  \<open>Number(s)\<close> on a string: white space around the literal is skipped and the empty
  string is 0; the literal is a signed decimal literal, a signed \<open>Infinity\<close>, or an
  unsigned literal in base 16, 8 or 2; anything else is \<open>NaN\<close>.
\<close>

definition string_to_number :: "string \<Rightarrow> jsnum" where
  "string_to_number s =
     (let t = trim s
      in case t of
           [] \<Rightarrow> JFin 0 0
         | c # r \<Rightarrow>
             (case (case r of p # ds \<Rightarrow> if c = CHR ''0'' then radix_of p else None | [] \<Rightarrow> None) of
                Some b \<Rightarrow>
                  (case radix_literal b (tl r) of
                     Some n \<Rightarrow> nearest_double n 1
                   | None \<Rightarrow> JNaN)
              | None \<Rightarrow>
                  (let body = (if c = CHR ''+'' \<or> c = CHR ''-'' then r else t);
                       x = (if body = ''Infinity'' then JInf
                            else case decimal_literal body of
                                   Some (n, d) \<Rightarrow> nearest_double n d
                                 | None \<Rightarrow> JNaN)
                   in if c = CHR ''-'' then negate x else x)))"

fun js_Number :: "raw \<Rightarrow> jsnum" where
  "js_Number RUndef = JNaN"
| "js_Number RNull = JFin 0 0"
| "js_Number (RBool b) = JFin (if b then 1 else 0) 0"
| "js_Number (RNum n) = JFin n 0"
| "js_Number (RStr s) = string_to_number s"

text \<open>The integer that a double is, if it is one, and \<open>Number(v) === k\<close> for an integer \<open>k\<close>.\<close>

fun num_int :: "jsnum \<Rightarrow> int option" where
  "num_int (JFin m u) =
     (if 0 \<le> u then Some (m * 2 ^ nat u)
      else if 2 ^ nat (- u) dvd m then Some (m div 2 ^ nat (- u))
      else None)"
| "num_int JNaN = None"
| "num_int JInf = None"

definition number_is :: "raw \<Rightarrow> int \<Rightarrow> bool" where
  "number_is v k = (num_int (js_Number v) = Some k)"

text \<open>\<open>Math.trunc\<close> of a finite double (\<open>None\<close>: \<open>NaN\<close> or an infinity).\<close>

fun num_trunc :: "jsnum \<Rightarrow> int option" where
  "num_trunc (JFin m u) =
     (if 0 \<le> u then Some (m * 2 ^ nat u)
      else Some (sgn m * (\<bar>m\<bar> div 2 ^ nat (- u))))"
| "num_trunc JNaN = None"
| "num_trunc JInf = None"

section \<open>Clock and flexible date parsing\<close>

text \<open>\<open>padNumber(value, size) = String(value ?? "").padStart(size, "0")\<close>, on a number.\<close>

definition padNumber :: "int \<Rightarrow> nat \<Rightarrow> string" where
  "padNumber v width = replicate (width - length (dec v)) CHR ''0'' @ dec v"

definition is_sign :: "char \<Rightarrow> bool" where
  "is_sign c = (c = CHR ''+'' \<or> c = CHR ''-'')"

text \<open>
  The regular expressions of \<open>sanitizeLegacyOffsetString\<close>, matched at the head of a
  string. \<open>offset_head\<close> is \<open>([+-]\d{2}):([0-9]+)\<close>: it returns the hour part, the
  (longest) minute part and the rest. The test \<open>/[+-]\d{2}:[0-9]+\./\<close> needs a dot next;
  the replaced pattern \<open>/([+-]\d{2}):([0-9]+)(\.[0-9]+)/g\<close> a dot and at least one digit.
  A shorter minute part never helps either pattern: the character after it would be a digit.
\<close>

definition offset_head :: "string \<Rightarrow> (string \<times> string \<times> string) option" where
  "offset_head s =
     (case s of
        sg # h1 # h2 # c # r \<Rightarrow>
          if is_sign sg \<and> is_digit h1 \<and> is_digit h2 \<and> c = CHR '':'' \<and> takeWhile is_digit r \<noteq> []
          then Some ([sg, h1, h2], takeWhile is_digit r, dropWhile is_digit r)
          else None
      | _ \<Rightarrow> None)"

definition test_at :: "string \<Rightarrow> bool" where
  "test_at s =
     (case offset_head s of
        Some (_, _, c # _) \<Rightarrow> c = CHR ''.''
      | _ \<Rightarrow> False)"

fun legacy_test :: "string \<Rightarrow> bool" where
  "legacy_test [] = False"
| "legacy_test (c # cs) = (test_at (c # cs) \<or> legacy_test cs)"

definition match_at :: "string \<Rightarrow> (string \<times> string \<times> string \<times> string) option" where
  "match_at s =
     (case offset_head s of
        Some (hourPart, minutePart, c # r) \<Rightarrow>
          if c = CHR ''.'' \<and> takeWhile is_digit r \<noteq> []
          then Some (hourPart, minutePart, c # takeWhile is_digit r, dropWhile is_digit r)
          else None
      | _ \<Rightarrow> None)"

text \<open>
  The replacement callback: \<open>minutesFloat = Number(minutePart + fractional)\<close>, truncated
  and clamped into 0..59 when it is finite, and \<open>Number.parseInt(minutePart, 10) || 0\<close>
  clamped otherwise (\<open>fractional\<close> begins with the dot).
\<close>

definition normalizedMinutes :: "string \<Rightarrow> string \<Rightarrow> int" where
  "normalizedMinutes minutePart fractional =
     (case num_trunc (js_Number (RStr (minutePart @ fractional))) of
        Some t \<Rightarrow> max 0 (min 59 t)
      | None \<Rightarrow> max 0 (min 59 (case parseInt minutePart of Some n \<Rightarrow> n | None \<Rightarrow> 0)))"

function legacy_replace :: "string \<Rightarrow> string" where
  "legacy_replace [] = []"
| "legacy_replace (c # cs) =
     (case match_at (c # cs) of
        Some (hourPart, minutePart, fractional, rest) \<Rightarrow>
          hourPart @ '':'' @ padNumber (normalizedMinutes minutePart fractional) 2
            @ legacy_replace rest
      | None \<Rightarrow> c # legacy_replace cs)"
  by pat_completeness auto
termination
proof (relation "measure length")
  show "wf (measure length)" by simp
next
  fix c :: char and cs x2 x y xa ya xb yb
  assume m: "match_at (c # cs) = Some x2" "(x, y) = x2" "(xa, ya) = y" "(xb, yb) = ya"
  have le: "length (dropWhile is_digit r) \<le> length r" for r :: string
    by (rule length_dropWhile_le)
  from m obtain a b d e r r' where s: "c # cs = a # b # d # e # r"
    and r: "dropWhile is_digit r = CHR ''.'' # r'" and yb: "yb = dropWhile is_digit r'"
    by (auto simp: match_at_def offset_head_def split: list.splits if_splits option.splits)
  have "length yb \<le> length r'" using yb le by simp
  moreover have "length r' < length r" using le[of r] r by simp
  ultimately have "length yb < length (c # cs)" using s by simp
  then show "(yb, c # cs) \<in> measure length"
    by simp
next
  fix c :: char and cs
  show "(cs, c # cs) \<in> measure length" by simp
qed

definition sanitizeLegacyOffsetString :: "string \<Rightarrow> string" where
  "sanitizeLegacyOffsetString v = (if \<not> legacy_test v then v else legacy_replace v)"

text \<open>
  A value handed to the date functions: a \<open>Date\<close> object (its time value, \<open>None\<close> for
  an invalid date) or a primitive.
\<close>

datatype datelike = DDate "int option" | DPrim raw

text \<open>
  What the module takes from outside. \<open>newDate s\<close> is the time value of \<open>new Date(s)\<close>
  (\<open>None\<close>: invalid date) and \<open>formatISO\<close> is \<open>formatChileDateTimeISO\<close> on a valid date
  (it prints through \<open>Intl.DateTimeFormat\<close>); \<open>now_ms\<close> is the clock, read once per call.
  \<open>parseChileDateString\<close>, \<open>startOfChileDay\<close> and \<open>addChileDays\<close> are imported from
  \<open>@/utils/timezone\<close>, a module that is not part of the sources at hand: they are
  parameters here, with \<open>None\<close> for a null or invalid result.
\<close>

record env =
  now_ms :: int
  formatISO :: "int \<Rightarrow> string"
  newDate :: "string \<Rightarrow> int option"
  parseChileDateString :: "datelike \<Rightarrow> int option"
  startOfChileDay :: "int \<Rightarrow> int option"
  addChileDays :: "int \<Rightarrow> int \<Rightarrow> int option"

definition nowISO :: "env \<Rightarrow> string" where
  "nowISO e = formatISO e (now_ms e)"

text \<open>\<open>new Date(n)\<close> for a finite number: valid within 8.64e15 ms of the epoch.\<close>

definition dateFromNumber :: "int \<Rightarrow> int option" where
  "dateFromNumber n = (if \<bar>n\<bar> \<le> 8640000000000000 then Some n else None)"

text \<open>The loop \<open>for (const candidate of attempts)\<close>: the first candidate that parses.\<close>

fun first_parsed :: "(string \<Rightarrow> int option) \<Rightarrow> string list \<Rightarrow> int option" where
  "first_parsed parse [] = None"
| "first_parsed parse (candidate # rest) =
     (case parse candidate of Some t \<Rightarrow> Some t | None \<Rightarrow> first_parsed parse rest)"

definition parseFlexibleDate :: "env \<Rightarrow> datelike \<Rightarrow> int option" where
  "parseFlexibleDate e v =
     (case (case v of DDate (Some t) \<Rightarrow> Some t | _ \<Rightarrow> None) of
        Some t \<Rightarrow> Some t
      | None \<Rightarrow>
     (case (case v of DPrim (RNum n) \<Rightarrow> dateFromNumber n | _ \<Rightarrow> None) of
        Some t \<Rightarrow> Some t
      | None \<Rightarrow>
     (case (case v of
              DPrim (RStr s) \<Rightarrow>
                (let trimmed = trim s in
                 if trimmed \<noteq> [] then
                   (let sanitized = sanitizeLegacyOffsetString trimmed;
                        attempts = trimmed # (if sanitized \<noteq> trimmed then [sanitized] else [])
                    in first_parsed (newDate e) attempts)
                 else None)
            | _ \<Rightarrow> None) of
        Some t \<Rightarrow> Some t
      | None \<Rightarrow>
          parseChileDateString e
            (case v of DPrim (RStr s) \<Rightarrow> DPrim (RStr (sanitizeLegacyOffsetString s)) | _ \<Rightarrow> v))))"

definition toISOOrNow :: "env \<Rightarrow> datelike \<Rightarrow> string" where
  "toISOOrNow e v = (case parseFlexibleDate e v of Some t \<Rightarrow> formatISO e t | None \<Rightarrow> nowISO e)"

section \<open>Data model\<close>

text \<open>
  A task of \<open>order.tasks.data\<close>. \<open>status\<close> is what \<open>Number(t.status)\<close> reads: \<open>None\<close>
  when the field is absent or not a number. Time stamps are the strings the code stores.
\<close>

record task =
  status :: "int option"
  init_task :: "string option"
  end_task :: "string option"
  accepted_at :: "string option"
  completed_at :: "string option"
  duration_seconds :: "int option"
  completed_by :: raw
  accepted_protocol :: raw
  obs_assigned_to :: "string option"
  medicion_result :: raw
  medicion_range_from :: raw
  medicion_range_to :: raw

text \<open>
  \<open>info.obs_anulada\<close>: the text of the automatic expiry, or the pair
  \<open>[reason, detail]\<close> that \<open>cancelOrder\<close> records.
\<close>

datatype obs = ObsText string | ObsPair string string

text \<open>
  \<open>order.info\<close>, with the fields that the store reads or writes. \<open>info_status\<close>,
  \<open>asignado_a_code\<close> and \<open>especialidad_id\<close> are the values of \<open>status\<close>,
  \<open>asignado_a_code\<close> and \<open>Especialidad_id\<close> as they are stored (\<open>RUndef\<close>: absent);
  \<open>f_inicial\<close>, \<open>f_inicial_alt\<close>, \<open>frec_dias\<close>, \<open>frec_dias_alt\<close> and \<open>numero_orden\<close> are
  the keys \<open>"F inicial"\<close>, \<open>"F_inicial"\<close>, \<open>"Frec. Dias"\<close>, \<open>"FrecDias"\<close> and
  \<open>"Numero orden"\<close>; \<open>hs_reales\<close> counts hundredths of an hour (the code stores a number
  with two decimals). An order without \<open>info\<close> is one whose fields are all absent.
\<close>

record order_info =
  info_status :: raw
  f_inicial :: raw
  f_inicial_alt :: raw
  frec_dias :: raw
  frec_dias_alt :: raw
  obs_anulada :: "obs option"
  asignado_a_code :: raw
  especialidad_id :: raw
  numero_orden :: raw
  fecha_inicio :: "string option"
  fecha_fin :: "string option"
  hs_reales :: "int option"
  checkListDict :: raw

text \<open>
  An order, as ingested and as stored: \<open>code\<close> is the primary key of the table (a number
  once the record is normalised), \<open>numero_orden_top\<close>, \<open>numero\<close> and \<open>order_id\<close> are the
  legacy top-level fields \<open>"Numero orden"\<close>, \<open>Numero\<close> and \<open>id\<close>, \<open>tasks_data\<close> is
  the array \<open>tasks.data\<close> (\<open>None\<close> when there is none).
\<close>

record order =
  code :: raw
  numero_orden_top :: raw
  numero :: raw
  order_id :: raw
  info :: order_info
  tasks_data :: "task list option"

record user =
  ucode :: raw
  name :: string
  role :: string
  speciality :: "int option"
  active :: bool
  signature :: raw
  createdAt :: "string option"
  updatedAt :: "string option"
  passwordHash :: "string option"

record meta =
  version :: int
  changeLog :: "string list"

text \<open>
  The four tables of the Dexie database \<open>SIGEMDB\<close>, each a list of records with a unique
  primary key (\<open>&code\<close>, \<open>&version\<close>). A new record goes to the end of the list;
  nothing below depends on the order in which \<open>toArray\<close> lists a table.
\<close>

record tables =
  users :: "user list"
  usersMeta :: "meta list"
  orders :: "order list"
  ordersMeta :: "meta list"

text \<open>
  The database together with the storage faults still to come: every write request takes
  the next flag of \<open>faults\<close> and is rejected when the flag is set; when the list is used
  up, no write fails any more. This is how a rejected IndexedDB request (quota,
  constraint, abort) enters the model.
\<close>

record world =
  db :: tables
  faults :: "bool list"

text \<open>
  The errors thrown. The code throws \<open>Error\<close> objects that differ by their message; one
  constructor stands for each message, and \<open>StorageFailure\<close> for a request that the
  database rejects.
\<close>

datatype error =
    CodeNotInteger
  | NameRequired
  | RoleRequired
  | SpecialityRequired
  | UserExists
  | UserNotFound
  | OrderCodeNotNumeric
  | TaskIndexInvalid
  | OrderNotFound
  | TaskNotFound
  | ReasonRequired
  | DetailRequired
  | StorageFailure



section \<open>Asynchronous operations on the database\<close>

type_synonym 'a io = "world \<Rightarrow> (error + 'a) \<times> world"

definition io_return :: "'a \<Rightarrow> 'a io" where
  "io_return a = (\<lambda>w. (Inr a, w))"

definition io_throw :: "error \<Rightarrow> 'a io" where
  "io_throw e = (\<lambda>w. (Inl e, w))"

text \<open>\<open>await m; f\<close>: an error of \<open>m\<close> ends the sequence.\<close>

definition io_bind :: "'a io \<Rightarrow> ('a \<Rightarrow> 'b io) \<Rightarrow> 'b io" where
  "io_bind m f = (\<lambda>w. case m w of (Inl e, w') \<Rightarrow> (Inl e, w') | (Inr a, w') \<Rightarrow> f a w')"

definition db_read :: "(tables \<Rightarrow> 'a) \<Rightarrow> 'a io" where
  "db_read f = (\<lambda>w. (Inr (f (db w)), w))"

definition db_write :: "(tables \<Rightarrow> tables) \<Rightarrow> unit io" where
  "db_write f =
     (\<lambda>w. case faults w of
        [] \<Rightarrow> (Inr (), w\<lparr>db := f (db w)\<rparr>)
      | failing # later \<Rightarrow>
          if failing then (Inl StorageFailure, w\<lparr>faults := later\<rparr>)
          else (Inr (), w\<lparr>db := f (db w), faults := later\<rparr>))"

text \<open>
  \<open>db.transaction("rw", ..., async () => body)\<close>: when the body throws, the tables are
  what they were before.
\<close>

definition transaction :: "'a io \<Rightarrow> 'a io" where
  "transaction body =
     (\<lambda>w. case body w of
        (Inl e, w') \<Rightarrow> (Inl e, w'\<lparr>db := db w\<rparr>)
      | (Inr a, w') \<Rightarrow> (Inr a, w'))"

text \<open>\<open>try { await m } catch {}\<close>\<close>

definition try_catch :: "'a io \<Rightarrow> unit io" where
  "try_catch m = (\<lambda>w. case m w of (_, w') \<Rightarrow> (Inr (), w'))"

text \<open>Tables: \<open>get\<close>, \<open>put\<close>, \<open>delete\<close>, \<open>bulkPut\<close>, \<open>bulkDelete\<close> by primary key.\<close>

definition tbl_get :: "('a \<Rightarrow> 'k) \<Rightarrow> 'k \<Rightarrow> 'a list \<Rightarrow> 'a option" where
  "tbl_get key k xs = find (\<lambda>x. key x = k) xs"

definition tbl_put :: "('a \<Rightarrow> 'k) \<Rightarrow> 'a \<Rightarrow> 'a list \<Rightarrow> 'a list" where
  "tbl_put key x xs =
     (if list_ex (\<lambda>y. key y = key x) xs then map (\<lambda>y. if key y = key x then x else y) xs
      else xs @ [x])"

definition tbl_delete :: "('a \<Rightarrow> 'k) \<Rightarrow> 'k \<Rightarrow> 'a list \<Rightarrow> 'a list" where
  "tbl_delete key k xs = filter (\<lambda>y. key y \<noteq> k) xs"

definition tbl_bulkPut :: "('a \<Rightarrow> 'k) \<Rightarrow> 'a list \<Rightarrow> 'a list \<Rightarrow> 'a list" where
  "tbl_bulkPut key items xs = fold (tbl_put key) items xs"

definition tbl_bulkDelete :: "('a \<Rightarrow> 'k) \<Rightarrow> 'k list \<Rightarrow> 'a list \<Rightarrow> 'a list" where
  "tbl_bulkDelete key ks xs = fold (tbl_delete key) ks xs"

text \<open>\<open>meta.orderBy("version").last()\<close>: the record with the greatest version.\<close>

fun meta_last :: "meta list \<Rightarrow> meta option" where
  "meta_last [] = None"
| "meta_last (m # ms) =
     (case meta_last ms of
        None \<Rightarrow> Some m
      | Some l \<Rightarrow> if version m < version l then Some l else Some m)"

text \<open>A primary key must be a number or a string; a record without one is rejected.\<close>

fun valid_key :: "raw \<Rightarrow> bool" where
  "valid_key (RNum n) = True"
| "valid_key (RStr s) = True"
| "valid_key _ = False"

section \<open>Order status derived from the task list\<close>

text \<open>
  \<open>calculateOrderStatus(tasks)\<close>; the argument is \<open>None\<close> when it is not an array
  (\<open>order?.tasks?.data\<close> absent).
\<close>

definition calculateOrderStatus :: "task list option \<Rightarrow> int" where
  "calculateOrderStatus tasks =
     (case tasks of
        None \<Rightarrow> 0
      | Some ts \<Rightarrow>
          if list_all (\<lambda>t. status t = Some 2) ts then 2
          else if list_ex (\<lambda>t. status t = Some 1 \<or> status t = Some 2) ts then 1
          else 0)"

section \<open>Expiration window\<close>

definition AUTO_EXPIRED_NOTE :: string where
  "AUTO_EXPIRED_NOTE = ''Anulada automaticamente por vencimiento''"

record expiration_info =
  startDate :: int
  frequencyDays :: int
  dueDate :: int
  expirationDate :: int

definition computeExpirationInfo :: "env \<Rightarrow> order_info option \<Rightarrow> expiration_info option" where
  "computeExpirationInfo e orderInfo =
     (case orderInfo of
        None \<Rightarrow> None
      | Some i \<Rightarrow>
          (let startRaw = nullish (f_inicial i) (f_inicial_alt i);
               frequencyRaw = nullish (frec_dias i) (frec_dias_alt i)
           in case parseChileDateString e (DPrim startRaw) of
                None \<Rightarrow> None
              | Some startDateRaw \<Rightarrow>
             (case toInt frequencyRaw of
                None \<Rightarrow> None
              | Some freq \<Rightarrow>
             (case startOfChileDay e startDateRaw of
                None \<Rightarrow> None
              | Some start \<Rightarrow>
             (case addChileDays e start freq of
                None \<Rightarrow> None
              | Some due \<Rightarrow>
             (case addChileDays e start (freq + 4) of
                None \<Rightarrow> None
              | Some expiration \<Rightarrow>
                  Some \<lparr>startDate = start, frequencyDays = freq, dueDate = due,
                        expirationDate = expiration\<rparr>))))))"

definition isOrderExpired :: "env \<Rightarrow> order \<Rightarrow> datelike \<Rightarrow> bool" where
  "isOrderExpired e ord referenceDate =
     (case computeExpirationInfo e (Some (info ord)) of
        None \<Rightarrow> False
      | Some x \<Rightarrow>
          (case parseFlexibleDate e referenceDate of
             None \<Rightarrow> False
           | Some r \<Rightarrow>
               (case startOfChileDay e r of
                  None \<Rightarrow> False
                | Some reference \<Rightarrow> expirationDate x < reference)))"

section \<open>Meta versions\<close>

definition next_meta :: "meta option \<Rightarrow> string \<Rightarrow> meta" where
  "next_meta latest line =
     \<lparr>version = (case latest of Some m \<Rightarrow> version m + 1 | None \<Rightarrow> 1),
      changeLog = (case latest of Some m \<Rightarrow> changeLog m | None \<Rightarrow> []) @ [line]\<rparr>"

definition bumpUsersVersion :: "env \<Rightarrow> string \<Rightarrow> int io" where
  "bumpUsersVersion e reason =
     io_bind (db_read (\<lambda>t. meta_last (usersMeta t))) (\<lambda>latest.
     io_bind (db_write (\<lambda>t. t\<lparr>usersMeta :=
                 tbl_put version (next_meta latest (nowISO e @ '' - '' @ reason)) (usersMeta t)\<rparr>))
       (\<lambda>_. io_return (version (next_meta latest (nowISO e @ '' - '' @ reason)))))"

definition bumpOrdersVersion :: "env \<Rightarrow> string \<Rightarrow> int io" where
  "bumpOrdersVersion e reason =
     io_bind (db_read (\<lambda>t. meta_last (ordersMeta t))) (\<lambda>latest.
     io_bind (db_write (\<lambda>t. t\<lparr>ordersMeta :=
                 tbl_put version (next_meta latest (nowISO e @ '' - '' @ reason)) (ordersMeta t)\<rparr>))
       (\<lambda>_. io_return (version (next_meta latest (nowISO e @ '' - '' @ reason)))))"

definition getUsersMeta :: "tables \<Rightarrow> meta option" where
  "getUsersMeta t = meta_last (usersMeta t)"

definition getOrdersMeta :: "tables \<Rightarrow> meta option" where
  "getOrdersMeta t = meta_last (ordersMeta t)"

text \<open>\<open>meta?.version || 0\<close>: the version that the snapshot import compares.\<close>

definition version_or_0 :: "meta option \<Rightarrow> int" where
  "version_or_0 m = (case m of None \<Rightarrow> 0 | Some x \<Rightarrow> version x)"

section \<open>Expiration sweep and initialisation\<close>

record sweep_result =
  expiredMarked :: nat
  restored :: nat

text \<open>\<open>!nextInfo.obs_anulada\<close>: absent or the empty string (an array is truthy).\<close>

fun obs_falsy :: "obs option \<Rightarrow> bool" where
  "obs_falsy None = True"
| "obs_falsy (Some (ObsText s)) = (s = [])"
| "obs_falsy (Some (ObsPair r d)) = False"

text \<open>
  One round of \<open>for (const order of allOrders)\<close> in \<open>markOrdersExpired\<close>. What the
  round decides for the order is a \<open>sweep_action\<close>: nothing (\<open>continue\<close>, or no branch
  taken), the record pushed with status 4, or the record pushed with the restored status.
\<close>

datatype sweep_action = Keep | Expire order | Restore order

definition sweep_action :: "env \<Rightarrow> int \<Rightarrow> bool \<Rightarrow> int list \<Rightarrow> order \<Rightarrow> sweep_action" where
  "sweep_action e today evaluateAll codesSet ord =
     (case toInt (code ord) of
        None \<Rightarrow> Keep
      | Some c \<Rightarrow>
          if number_is (info_status (info ord)) 2 then Keep
          else if \<not> (evaluateAll \<or> c \<in> set codesSet \<or> number_is (info_status (info ord)) 4)
          then Keep
          else
            (let expired =
                   (case computeExpirationInfo e (Some (info ord)) of
                      Some x \<Rightarrow> expirationDate x < today
                    | None \<Rightarrow> False)
             in if expired then
                  (if \<not> number_is (info_status (info ord)) 4 then
                     (let nextInfo = (info ord)\<lparr>info_status := RNum 4\<rparr>
                      in Expire (ord\<lparr>info :=
                           (if obs_falsy (obs_anulada nextInfo)
                            then nextInfo\<lparr>obs_anulada := Some (ObsText AUTO_EXPIRED_NOTE)\<rparr>
                            else nextInfo)\<rparr>))
                   else Keep)
                else if number_is (info_status (info ord)) 4 then
                  (let nextInfo = (info ord)
                         \<lparr>info_status := RNum (calculateOrderStatus (tasks_data ord))\<rparr>
                   in Restore (ord\<lparr>info :=
                        (if obs_anulada nextInfo = Some (ObsText AUTO_EXPIRED_NOTE)
                         then nextInfo\<lparr>obs_anulada := None\<rparr>
                         else nextInfo)\<rparr>))
                else Keep))"

text \<open>The round on the variables \<open>updates\<close>, \<open>expiredMarked\<close> and \<open>restored\<close>.\<close>

definition sweep_step ::
  "env \<Rightarrow> int \<Rightarrow> bool \<Rightarrow> int list \<Rightarrow> order \<Rightarrow> order list \<times> nat \<times> nat \<Rightarrow> order list \<times> nat \<times> nat"
where
  "sweep_step e today evaluateAll codesSet ord acc =
     (case acc of (updates, marked, rest) \<Rightarrow>
        (case sweep_action e today evaluateAll codesSet ord of
           Keep \<Rightarrow> acc
         | Expire u \<Rightarrow> (updates @ [u], marked + 1, rest)
         | Restore u \<Rightarrow> (updates @ [u], marked, rest + 1)))"

text \<open>
  \<open>markOrdersExpired(orderCodes, {skipInit: true})\<close>, the part after the database is
  open; \<open>orderCodes\<close> is \<open>None\<close> when it is not an array.
\<close>

definition markOrdersExpired_open :: "env \<Rightarrow> raw list option \<Rightarrow> sweep_result io" where
  "markOrdersExpired_open e orderCodes =
     (let codesSet = (case orderCodes of Some cs \<Rightarrow> List.map_filter toInt cs | None \<Rightarrow> []);
          evaluateAll = (codesSet = [])
      in io_bind (db_read orders) (\<lambda>allOrders.
           if allOrders = [] then io_return \<lparr>expiredMarked = 0, restored = 0\<rparr>
           else case startOfChileDay e (now_ms e) of
                  None \<Rightarrow> io_return \<lparr>expiredMarked = 0, restored = 0\<rparr>
                | Some today \<Rightarrow>
                    (case fold (sweep_step e today evaluateAll codesSet) allOrders ([], 0, 0) of
                       (updates, marked, rest) \<Rightarrow>
                         if updates = [] then io_return \<lparr>expiredMarked = marked, restored = rest\<rparr>
                         else
                           io_bind (transaction
                             (io_bind (db_write (\<lambda>t. t\<lparr>orders := tbl_bulkPut code updates (orders t)\<rparr>))
                               (\<lambda>_. bumpOrdersVersion e
                                  (''revalidate expired orders (marked '' @ dec (int marked)
                                     @ '', restored '' @ dec (int rest) @ '')''))))
                             (\<lambda>_. io_return \<lparr>expiredMarked = marked, restored = rest\<rparr>))))"

text \<open>
  \<open>initAPIDB\<close>, which every exported operation awaits first: it seeds the two meta tables
  when they are empty and runs the expiration sweep, whose failure it only logs.
  (\<open>ensurePersistentStorage\<close> and \<open>db.open\<close> do not touch the tables.)
\<close>

definition initAPIDB :: "env \<Rightarrow> unit io" where
  "initAPIDB e =
     io_bind (db_read usersMeta) (\<lambda>um.
     io_bind (if um = [] then
                db_write (\<lambda>t. t\<lparr>usersMeta := tbl_put version
                  \<lparr>version = 1, changeLog = [nowISO e @ '' - init users meta v1'']\<rparr> (usersMeta t)\<rparr>)
              else io_return ()) (\<lambda>_.
     io_bind (db_read ordersMeta) (\<lambda>om.
     io_bind (if om = [] then
                db_write (\<lambda>t. t\<lparr>ordersMeta := tbl_put version
                  \<lparr>version = 1, changeLog = [nowISO e @ '' - init orders meta v1'']\<rparr> (ordersMeta t)\<rparr>)
              else io_return ()) (\<lambda>_.
     try_catch (markOrdersExpired_open e None)))))"


text \<open>
  For the statements below: the record that a round pushes onto \<open>updates\<close>, and the list
  \<open>updates\<close> that a sweep with start of day \<open>today\<close> collects over a table.
\<close>

fun pushed :: "sweep_action \<Rightarrow> order option" where
  "pushed Keep = None"
| "pushed (Expire u) = Some u"
| "pushed (Restore u) = Some u"

definition sweep_updates :: "env \<Rightarrow> int \<Rightarrow> raw list option \<Rightarrow> order list \<Rightarrow> order list" where
  "sweep_updates e today orderCodes os =
     (let codesSet = (case orderCodes of Some cs \<Rightarrow> List.map_filter toInt cs | None \<Rightarrow> [])
      in List.map_filter (\<lambda>x. pushed (sweep_action e today (codesSet = []) codesSet x)) os)"

section \<open>Users\<close>

text \<open>
  \<open>simpleHash\<close>: \<open>h = (h * 31 + s.charCodeAt(i)) >>> 0\<close> over the characters, printed
  in base 16.
\<close>

definition simpleHash :: "string \<Rightarrow> string" where
  "simpleHash s = hex (uint (fold (\<lambda>c h. h * 31 + of_char c) s (0 :: 32 word)))"






text \<open>The \<open>patch\<close> of \<open>updateUser\<close>; \<open>None\<close> is a property that the object does not own.\<close>

record user_patch =
  p_name :: "raw option"
  p_role :: "raw option"
  p_speciality :: "raw option"
  p_active :: "raw option"
  p_signature :: "raw option"
  p_password :: "raw option"
  p_updatedAt :: "string option"

definition updateUser :: "env \<Rightarrow> raw \<Rightarrow> user_patch \<Rightarrow> unit io" where
  "updateUser e c patch =
     io_bind (initAPIDB e) (\<lambda>_.
       case toInt c of
         None \<Rightarrow> io_throw CodeNotInteger
       | Some numericCode \<Rightarrow>
           io_bind (db_read (\<lambda>t. tbl_get ucode (RNum numericCode) (users t))) (\<lambda>found.
             case found of
               None \<Rightarrow> io_throw UserNotFound
             | Some existing \<Rightarrow>
                (let nameValue = (case p_name patch of
                                    Some v \<Rightarrow> trim (js_String (nullish v (RStr [])))
                                  | None \<Rightarrow> trim (name existing));
                     roleValue = (case p_role patch of
                                    Some v \<Rightarrow> trim (js_String (nullish v (RStr [])))
                                  | None \<Rightarrow> trim (role existing));
                     requiresSpeciality = (roleValue = ''supervisor'' \<or> roleValue = ''mantenedor'');
                     specialityError =
                       (case p_speciality patch of
                          Some v \<Rightarrow> requiresSpeciality \<and> toInt v = None
                        | None \<Rightarrow> requiresSpeciality \<and> speciality existing = None);
                     nextSpeciality =
                       (case p_speciality patch of
                          Some v \<Rightarrow> toInt v
                        | None \<Rightarrow> if requiresSpeciality then speciality existing else None);
                     nextHash =
                       (case p_password patch of
                          Some (RStr pw) \<Rightarrow>
                            if trim pw \<noteq> [] then Some (simpleHash (trim pw)) else passwordHash existing
                        | _ \<Rightarrow> passwordHash existing);
                     next = existing
                       \<lparr>name := nameValue, role := roleValue, speciality := nextSpeciality,
                        active := (case p_active patch of Some v \<Rightarrow> truthy v | None \<Rightarrow> active existing),
                        signature := (case p_signature patch of
                                        Some v \<Rightarrow> nullish v RNull
                                      | None \<Rightarrow> signature existing),
                        updatedAt := (case p_updatedAt patch of
                                        Some v \<Rightarrow> Some v
                                      | None \<Rightarrow> Some (nowISO e)),
                        passwordHash := nextHash\<rparr>
                 in if nameValue = [] then io_throw NameRequired
                    else if roleValue = [] then io_throw RoleRequired
                    else if specialityError then io_throw SpecialityRequired
                    else
                      io_bind (transaction
                        (io_bind (db_write (\<lambda>t. t\<lparr>users := tbl_put ucode next (users t)\<rparr>))
                          (\<lambda>_. bumpUsersVersion e (''update user '' @ show_int numericCode))))
                        (\<lambda>_. io_return ()))))"

text \<open>
  \<open>deleteUser\<close>. There is no look-up of the user before the delete. A code that is not
  an integer reaches \<open>db.users.delete(undefined)\<close>, a request without a valid key, which
  the database rejects.
\<close>

definition deleteUser :: "env \<Rightarrow> raw \<Rightarrow> unit io" where
  "deleteUser e c =
     io_bind (initAPIDB e) (\<lambda>_.
     io_bind (transaction
       (io_bind (case toInt c of
                   None \<Rightarrow> io_throw StorageFailure
                 | Some n \<Rightarrow> db_write (\<lambda>t. t\<lparr>users := tbl_delete ucode (RNum n) (users t)\<rparr>))
          (\<lambda>_. bumpUsersVersion e
                 (''delete user '' @ js_String (case toInt c of None \<Rightarrow> RUndef | Some n \<Rightarrow> RNum n)))))
       (\<lambda>_. io_return ()))"

section \<open>Orders\<close>

text \<open>
  The key of an ingested order: the first of \<open>o.code\<close>, \<open>o.info["Numero orden"]\<close>,
  \<open>o["Numero orden"]\<close>, \<open>o.Numero\<close>, \<open>o.id\<close> that resolves to an integer.
\<close>

definition resolveCode :: "order \<Rightarrow> int option" where
  "resolveCode x =
     (case List.map_filter candidateInt
             [code x, numero_orden (info x), numero_orden_top x, numero x, order_id x] of
        [] \<Rightarrow> None
      | n # _ \<Rightarrow> Some n)"

text \<open>The \<open>map\<close> callback of \<open>bulkUpsertOrders\<close>; \<open>None\<close> is the \<open>null\<close> that is filtered out.\<close>

definition canonOrder :: "order \<Rightarrow> order option" where
  "canonOrder x =
     (case resolveCode x of
        None \<Rightarrow> None
      | Some n \<Rightarrow>
          Some (case tasks_data x of
                  Some ts \<Rightarrow> x\<lparr>code := RNum n,
                              info := (info x)\<lparr>info_status := RNum (calculateOrderStatus (Some ts))\<rparr>\<rparr>
                | None \<Rightarrow> x\<lparr>code := RNum n\<rparr>))"

text \<open>
  \<open>bulkUpsertOrders\<close>; the argument is \<open>None\<close> when it is not an array. The two writes
  are awaited one after the other, outside any transaction.
\<close>

definition bulkUpsertOrders :: "env \<Rightarrow> order list option \<Rightarrow> nat io" where
  "bulkUpsertOrders e arg =
     io_bind (initAPIDB e) (\<lambda>_.
       case arg of
         None \<Rightarrow> io_return 0
       | Some os \<Rightarrow>
           io_bind (if List.map_filter canonOrder os \<noteq> [] then
                      db_write (\<lambda>t. t\<lparr>orders :=
                        tbl_bulkPut code (List.map_filter canonOrder os) (orders t)\<rparr>)
                    else io_return ()) (\<lambda>_.
           io_bind (bumpOrdersVersion e (''bulk upsert orders ('' @ dec (int (length os)) @ '')''))
             (\<lambda>_. io_return (length os))))"

definition getOrderByCode :: "env \<Rightarrow> raw \<Rightarrow> order option io" where
  "getOrderByCode e orderCode =
     io_bind (initAPIDB e) (\<lambda>_.
       case toInt orderCode of
         None \<Rightarrow> io_return None
       | Some c \<Rightarrow> db_read (\<lambda>t. tbl_get code (RNum c) (orders t)))"


text \<open>\<open>typeof v === "string" ? v.trim() : ""\<close>\<close>

fun trimmed_string :: "raw \<Rightarrow> string" where
  "trimmed_string (RStr s) = trim s"
| "trimmed_string _ = []"

definition cancelOrder :: "env \<Rightarrow> raw \<Rightarrow> raw \<Rightarrow> raw \<Rightarrow> order io" where
  "cancelOrder e orderCode reason detail =
     io_bind (initAPIDB e) (\<lambda>_.
       case toInt orderCode of
         None \<Rightarrow> io_throw OrderCodeNotNumeric
       | Some c \<Rightarrow>
           io_bind (db_read (\<lambda>t. tbl_get code (RNum c) (orders t))) (\<lambda>found.
             case found of
               None \<Rightarrow> io_throw OrderNotFound
             | Some ord \<Rightarrow>
                 if trimmed_string reason = [] then io_throw ReasonRequired
                 else if trimmed_string detail = [] then io_throw DetailRequired
                 else
                   (let updatedOrder = ord\<lparr>info := (info ord)
                          \<lparr>info_status := RNum 3,
                           obs_anulada := Some (ObsPair (trimmed_string reason) (trimmed_string detail))\<rparr>\<rparr>
                    in io_bind (transaction
                         (io_bind (db_write (\<lambda>t. t\<lparr>orders := tbl_put code updatedOrder (orders t)\<rparr>))
                           (\<lambda>_. bumpOrdersVersion e (''cancel order '' @ show_int c))))
                         (\<lambda>_. io_return updatedOrder))))"

definition saveOrderChecklist :: "env \<Rightarrow> raw \<Rightarrow> raw \<Rightarrow> order io" where
  "saveOrderChecklist e orderCode checklistData =
     io_bind (initAPIDB e) (\<lambda>_.
       case toInt orderCode of
         None \<Rightarrow> io_throw OrderCodeNotNumeric
       | Some c \<Rightarrow>
           io_bind (db_read (\<lambda>t. tbl_get code (RNum c) (orders t))) (\<lambda>found.
             case found of
               None \<Rightarrow> io_throw OrderNotFound
             | Some ord \<Rightarrow>
                 (let updatedOrder = ord\<lparr>info := (info ord)\<lparr>checkListDict := checklistData\<rparr>\<rparr>
                  in io_bind (transaction
                       (io_bind (db_write (\<lambda>t. t\<lparr>orders := tbl_put code updatedOrder (orders t)\<rparr>))
                         (\<lambda>_. bumpOrdersVersion e (''save checklist order '' @ show_int c))))
                       (\<lambda>_. io_return updatedOrder))))"

section \<open>Task transitions\<close>

text \<open>A stored time stamp as a value: absent is \<open>undefined\<close>.\<close>

fun stamp :: "string option \<Rightarrow> datelike" where
  "stamp None = DPrim RUndef"
| "stamp (Some s) = DPrim (RStr s)"

fun stamp_truthy :: "string option \<Rightarrow> bool" where
  "stamp_truthy None = False"
| "stamp_truthy (Some s) = (s \<noteq> [])"

text \<open>
  The task index: \<open>Number.parseInt(taskIndex, 10)\<close> must be a non-negative integer, and
  \<open>taskList[idx]\<close> must exist.
\<close>

definition parseIndex :: "raw \<Rightarrow> nat option" where
  "parseIndex taskIndex =
     (case parseInt (js_String taskIndex) of
        None \<Rightarrow> None
      | Some i \<Rightarrow> if i < 0 then None else Some (nat i))"

record task_result =
  res_order :: order
  res_task :: task
  res_index :: nat

definition startOrderTask :: "env \<Rightarrow> raw \<Rightarrow> raw \<Rightarrow> task_result io" where
  "startOrderTask e orderCode taskIndex =
     io_bind (initAPIDB e) (\<lambda>_.
       case toInt orderCode of
         None \<Rightarrow> io_throw OrderCodeNotNumeric
       | Some c \<Rightarrow>
      (case parseIndex taskIndex of
         None \<Rightarrow> io_throw TaskIndexInvalid
       | Some idx \<Rightarrow>
           io_bind (db_read (\<lambda>t. tbl_get code (RNum c) (orders t))) (\<lambda>found.
             case found of
               None \<Rightarrow> io_throw OrderNotFound
             | Some ord \<Rightarrow>
            (case tasks_data ord of
               None \<Rightarrow> io_throw TaskNotFound
             | Some taskList \<Rightarrow>
                 if \<not> idx < length taskList then io_throw TaskNotFound
                 else
                   (let prevTask = taskList ! idx;
                        startAt = (if stamp_truthy (init_task prevTask) then init_task prevTask
                                   else Some (nowISO e));
                        nextTask = prevTask
                          \<lparr>init_task := Some (toISOOrNow e (stamp startAt)),
                           accepted_at :=
                             (if stamp_truthy (accepted_at prevTask)
                              then Some (toISOOrNow e (stamp (accepted_at prevTask)))
                              else Some (toISOOrNow e (stamp startAt))),
                           status := (case status prevTask of
                                        Some n \<Rightarrow> if 0 < n then Some n else Some 1
                                      | None \<Rightarrow> Some 1)\<rparr>;
                        updatedTasks = taskList[idx := nextTask];
                        updatedOrder = ord
                          \<lparr>tasks_data := Some updatedTasks,
                           info := (info ord)
                             \<lparr>info_status := RNum (calculateOrderStatus (Some updatedTasks)),
                              fecha_inicio :=
                                (if stamp_truthy (fecha_inicio (info ord))
                                 then Some (toISOOrNow e (stamp (fecha_inicio (info ord))))
                                 else init_task nextTask)\<rparr>\<rparr>
                    in io_bind (transaction
                         (io_bind (db_write (\<lambda>t. t\<lparr>orders := tbl_put code updatedOrder (orders t)\<rparr>))
                           (\<lambda>_. bumpOrdersVersion e
                                  (''start task '' @ dec (int idx + 1) @ '' order '' @ show_int c))))
                         (\<lambda>_. io_return
                                \<lparr>res_order = updatedOrder, res_task = nextTask, res_index = idx\<rparr>))))))"

text \<open>The \<open>updates\<close> argument of \<open>completeOrderTask\<close>; an omitted property is \<open>RUndef\<close>.\<close>

record task_updates =
  up_completed_by :: raw
  up_accepted :: raw
  up_obs :: raw
  up_medicion :: raw
  up_rangoDesde :: raw
  up_rangoHasta :: raw

text \<open>
  The start and end instants of \<open>duration_seconds\<close>. The start is the first of the task's
  \<open>init_task\<close>, the order's \<open>fecha_inicio\<close> and \<open>new Date(timestamp)\<close>; the last
  may be an invalid date (\<open>None\<close>). The end is \<open>parseFlexibleDate(timestamp) || new Date()\<close>.
\<close>

definition duration_start :: "env \<Rightarrow> order \<Rightarrow> task \<Rightarrow> string \<Rightarrow> int option" where
  "duration_start e ord prevTask timestamp =
     (case parseFlexibleDate e (stamp (init_task prevTask)) of
        Some t \<Rightarrow> Some t
      | None \<Rightarrow>
          (case parseFlexibleDate e (stamp (fecha_inicio (info ord))) of
             Some t \<Rightarrow> Some t
           | None \<Rightarrow> newDate e timestamp))"

definition duration_end :: "env \<Rightarrow> string \<Rightarrow> int" where
  "duration_end e timestamp =
     (case parseFlexibleDate e (DPrim (RStr timestamp)) of Some t \<Rightarrow> t | None \<Rightarrow> now_ms e)"

text \<open>
  \<open>Math.max(0, Math.floor(diffMs / 1000))\<close>; with an invalid start the difference is
  \<open>NaN\<close> and so is the result (\<open>None\<close>).
\<close>

definition duration_of :: "env \<Rightarrow> order \<Rightarrow> task \<Rightarrow> string \<Rightarrow> int option" where
  "duration_of e ord prevTask timestamp =
     (case duration_start e ord prevTask timestamp of
        None \<Rightarrow> None
      | Some start \<Rightarrow> Some (max 0 ((duration_end e timestamp - start) div 1000)))"

text \<open>\<open>candidates.map(parseFlexibleDate).find((parsed) => parsed)\<close>\<close>

definition first_date :: "env \<Rightarrow> string option list \<Rightarrow> int option" where
  "first_date e candidates =
     (case List.map_filter (\<lambda>c. parseFlexibleDate e (stamp c)) candidates of
        [] \<Rightarrow> None
      | t # _ \<Rightarrow> Some t)"

definition hs_start :: "env \<Rightarrow> order \<Rightarrow> task \<Rightarrow> int option" where
  "hs_start e ord prevTask =
     first_date e
       [fecha_inicio (info ord), fecha_inicio (info ord), init_task prevTask,
        (case tasks_data ord of
           None \<Rightarrow> None
         | Some ts \<Rightarrow>
             (case find (\<lambda>t. stamp_truthy (init_task t)) ts of
                None \<Rightarrow> None
              | Some t \<Rightarrow> init_task t))]"

definition hs_end :: "env \<Rightarrow> order \<Rightarrow> string \<Rightarrow> int option" where
  "hs_end e ord timestamp = first_date e [Some timestamp, fecha_fin (info ord)]"

text \<open>
  \<open>info.hs_reales\<close> in hundredths of an hour: \<open>Number((diffMs / 3600000).toFixed(2))\<close>
  is \<open>diffMs / 36000\<close> rounded to the nearest integer. An exact tie goes up here; in
  the code it goes with the double nearest to the quotient.
\<close>

definition hs_reales_of :: "env \<Rightarrow> order \<Rightarrow> task \<Rightarrow> string \<Rightarrow> int" where
  "hs_reales_of e ord prevTask timestamp =
     (case hs_start e ord prevTask of
        None \<Rightarrow> 0
      | Some startAt \<Rightarrow>
          (case hs_end e ord timestamp of
             None \<Rightarrow> 0
           | Some endAt \<Rightarrow>
               if endAt - startAt \<le> 0 then 0
               else (endAt - startAt + 18000) div 36000))"

definition completeOrderTask :: "env \<Rightarrow> raw \<Rightarrow> raw \<Rightarrow> task_updates \<Rightarrow> task_result io" where
  "completeOrderTask e orderCode taskIndex updates =
     io_bind (initAPIDB e) (\<lambda>_.
       case toInt orderCode of
         None \<Rightarrow> io_throw OrderCodeNotNumeric
       | Some c \<Rightarrow>
      (case parseIndex taskIndex of
         None \<Rightarrow> io_throw TaskIndexInvalid
       | Some idx \<Rightarrow>
           io_bind (db_read (\<lambda>t. tbl_get code (RNum c) (orders t))) (\<lambda>found.
             case found of
               None \<Rightarrow> io_throw OrderNotFound
             | Some ord \<Rightarrow>
            (case tasks_data ord of
               None \<Rightarrow> io_throw TaskNotFound
             | Some taskList \<Rightarrow>
                 if \<not> idx < length taskList then io_throw TaskNotFound
                 else
                   (let prevTask = taskList ! idx;
                        timestamp = nowISO e;
                        nextTask = prevTask
                          \<lparr>status := Some 2,
                           end_task := Some timestamp,
                           completed_by :=
                             nullish (up_completed_by updates)
                               (nullish (completed_by prevTask)
                                  (nullish (asignado_a_code (info ord)) RNull)),
                           completed_at := Some timestamp,
                           duration_seconds := duration_of e ord prevTask timestamp,
                           accepted_protocol := nullish (up_accepted updates) (RBool True),
                           accepted_at := (case accepted_at prevTask of
                                             Some a \<Rightarrow> Some a
                                           | None \<Rightarrow> Some timestamp),
                           obs_assigned_to := (case up_obs updates of
                                                 RStr s \<Rightarrow> Some s
                                               | _ \<Rightarrow> obs_assigned_to prevTask),
                           medicion_result := (if up_medicion updates \<noteq> RUndef
                                               then up_medicion updates
                                               else medicion_result prevTask),
                           medicion_range_from := (if up_rangoDesde updates \<noteq> RUndef
                                                   then up_rangoDesde updates
                                                   else medicion_range_from prevTask),
                           medicion_range_to := (if up_rangoHasta updates \<noteq> RUndef
                                                 then up_rangoHasta updates
                                                 else medicion_range_to prevTask),
                           init_task := (if stamp_truthy (init_task prevTask)
                                         then init_task prevTask
                                         else Some timestamp)\<rparr>;
                        updatedTasks = taskList[idx := nextTask];
                        updatedOrder = ord
                          \<lparr>tasks_data := Some updatedTasks,
                           info := (info ord)
                             \<lparr>info_status := RNum (calculateOrderStatus (Some updatedTasks)),
                              fecha_fin := Some timestamp,
                              hs_reales := Some (hs_reales_of e ord prevTask timestamp)\<rparr>\<rparr>
                    in io_bind (transaction
                         (io_bind (db_write (\<lambda>t. t\<lparr>orders := tbl_put code updatedOrder (orders t)\<rparr>))
                           (\<lambda>_. bumpOrdersVersion e
                                  (''complete task '' @ dec (int idx + 1) @ '' order '' @ show_int c))))
                         (\<lambda>_. io_return
                                \<lparr>res_order = updatedOrder, res_task = nextTask, res_index = idx\<rparr>))))))"

section \<open>Snapshots\<close>

record apply_result =
  applied :: bool
  reason :: "string option"

text \<open>
  The payload of \<open>applyUsersSnapshot\<close>. The signature \<open>sig\<close> is left out: a mismatch only
  writes a warning to the console.
\<close>

record users_snapshot =
  us_meta :: "meta option"
  us_users :: "user list option"

text \<open>\<open>bulkPut\<close> of users: a record whose code is not a valid key is rejected.\<close>

definition users_bulkPut :: "user list \<Rightarrow> unit io" where
  "users_bulkPut us =
     (if list_all (\<lambda>u. valid_key (ucode u)) us
      then db_write (\<lambda>t. t\<lparr>users := tbl_bulkPut ucode us (users t)\<rparr>)
      else io_throw StorageFailure)"

definition applyUsersSnapshot :: "env \<Rightarrow> users_snapshot \<Rightarrow> apply_result io" where
  "applyUsersSnapshot e snap =
     io_bind (initAPIDB e) (\<lambda>_.
     io_bind (db_read getUsersMeta) (\<lambda>localMeta.
       let localVer = version_or_0 localMeta;
           incomingVer = version_or_0 (us_meta snap)
       in if incomingVer \<le> localVer
          then io_return \<lparr>applied = False, reason = Some ''stale-version''\<rparr>
          else
            io_bind (transaction
              (io_bind (db_write (\<lambda>t. t\<lparr>users := []\<rparr>)) (\<lambda>_.
               io_bind (case us_users snap of
                          None \<Rightarrow> io_return ()
                        | Some us \<Rightarrow>
                            if us \<noteq> [] then
                              users_bulkPut
                                (map (\<lambda>u. u\<lparr>ucode := (case toInt (ucode u) of
                                                         Some n \<Rightarrow> RNum n
                                                       | None \<Rightarrow> RUndef)\<rparr>) us)
                            else io_return ()) (\<lambda>_.
               db_write (\<lambda>t. t\<lparr>usersMeta := tbl_put version
                 \<lparr>version = incomingVer,
                  changeLog = (case us_meta snap of Some m \<Rightarrow> changeLog m | None \<Rightarrow> [])\<rparr>
                 (usersMeta t)\<rparr>)))))
              (\<lambda>_. io_return \<lparr>applied = True, reason = None\<rparr>)))"

record orders_snapshot =
  os_meta :: "meta option"
  os_orders :: "order list option"

text \<open>The \<open>context\<close> of \<open>applyOrdersSnapshot\<close>; an omitted property is \<open>RUndef\<close>.\<close>

record snapshot_context =
  ctx_userCode :: raw
  ctx_speciality :: raw

definition normalizeIncoming :: "order \<Rightarrow> order option" where
  "normalizeIncoming x = (case resolveCode x of None \<Rightarrow> None | Some n \<Rightarrow> Some (x\<lparr>code := RNum n\<rparr>))"

text \<open>\<open>v != null\<close>\<close>

fun not_nullish :: "raw \<Rightarrow> bool" where
  "not_nullish RUndef = False"
| "not_nullish RNull = False"
| "not_nullish _ = True"

text \<open>
  The codes that \<open>scopedRemoval\<close> deletes among the orders selected by \<open>in_scope\<close>.
\<close>

definition toRemove :: "(order \<Rightarrow> bool) \<Rightarrow> int list \<Rightarrow> order list \<Rightarrow> int list" where
  "toRemove in_scope keepCodes existing =
     filter (\<lambda>c. c \<notin> set keepCodes)
       (List.map_filter (\<lambda>x. toInt (code x)) (filter in_scope existing))"

definition remove_scope :: "(order \<Rightarrow> bool) \<Rightarrow> int list \<Rightarrow> unit io" where
  "remove_scope in_scope keepCodes =
     io_bind (db_read orders) (\<lambda>all.
       if toRemove in_scope keepCodes all \<noteq> [] then
         db_write (\<lambda>t. t\<lparr>orders :=
           tbl_bulkDelete code (map RNum (remdups (toRemove in_scope keepCodes all))) (orders t)\<rparr>)
       else io_return ())"

definition scopedRemoval :: "snapshot_context \<Rightarrow> int list \<Rightarrow> unit io" where
  "scopedRemoval context keepCodes =
     (if not_nullish (ctx_userCode context) then
        (case toInt (ctx_userCode context) of
           None \<Rightarrow> io_return ()
         | Some targetUser \<Rightarrow>
             remove_scope (\<lambda>x. number_is (asignado_a_code (info x)) targetUser) keepCodes)
      else if not_nullish (ctx_speciality context) then
        (case toInt (ctx_speciality context) of
           None \<Rightarrow> io_return ()
         | Some targetSpeciality \<Rightarrow>
             remove_scope (\<lambda>x. number_is (especialidad_id (info x)) targetSpeciality) keepCodes)
      else io_return ())"

definition applyOrdersSnapshot :: "env \<Rightarrow> orders_snapshot \<Rightarrow> snapshot_context \<Rightarrow> apply_result io" where
  "applyOrdersSnapshot e snap context =
     io_bind (initAPIDB e) (\<lambda>_.
     io_bind (db_read getOrdersMeta) (\<lambda>localMeta.
       let localVer = version_or_0 localMeta;
           incomingVer = version_or_0 (os_meta snap);
           normalized = (case os_orders snap of
                           Some os \<Rightarrow> List.map_filter normalizeIncoming os
                         | None \<Rightarrow> []);
           keepCodes = List.map_filter (\<lambda>x. toInt (code x)) normalized
       in if incomingVer \<le> localVer
          then io_return \<lparr>applied = False, reason = Some ''stale-version''\<rparr>
          else
            io_bind (transaction
              (io_bind (scopedRemoval context keepCodes) (\<lambda>_.
               io_bind (if normalized \<noteq> [] then
                          db_write (\<lambda>t. t\<lparr>orders := tbl_bulkPut code normalized (orders t)\<rparr>)
                        else io_return ()) (\<lambda>_.
               db_write (\<lambda>t. t\<lparr>ordersMeta := tbl_put version
                 \<lparr>version = incomingVer,
                  changeLog = (case os_meta snap of Some m \<Rightarrow> changeLog m | None \<Rightarrow> [])\<rparr>
                 (ordersMeta t)\<rparr>)))))
              (\<lambda>_. io_return \<lparr>applied = True, reason = None\<rparr>)))"

section \<open>Sample data\<close>

text \<open>The task \<open>{status: 0}\<close> of the scenarios, every other field absent.\<close>

definition pending_task :: task where
  "pending_task =
     \<lparr>status = Some 0, init_task = None, end_task = None, accepted_at = None,
      completed_at = None, duration_seconds = None, completed_by = RUndef,
      accepted_protocol = RUndef, obs_assigned_to = None, medicion_result = RUndef,
      medicion_range_from = RUndef, medicion_range_to = RUndef\<rparr>"

definition blank_info :: order_info where
  "blank_info =
     \<lparr>info_status = RUndef, f_inicial = RUndef, f_inicial_alt = RUndef, frec_dias = RUndef,
      frec_dias_alt = RUndef, obs_anulada = None, asignado_a_code = RUndef,
      especialidad_id = RUndef, numero_orden = RUndef, fecha_inicio = None, fecha_fin = None,
      hs_reales = None, checkListDict = RUndef\<rparr>"

text \<open>The order \<open>{code: c, info: {}}\<close>.\<close>

definition blank_order :: "raw \<Rightarrow> order" where
  "blank_order c =
     \<lparr>code = c, numero_orden_top = RUndef, numero = RUndef, order_id = RUndef,
      info = blank_info, tasks_data = None\<rparr>"

text \<open>
  The order of the expiration scenario: \<open>F inicial\<close> 2024-01-01, \<open>Frec. Dias\<close> 7, two
  pending tasks.
\<close>

definition scenario_order :: order where
  "scenario_order =
     (blank_order (RNum 1))
       \<lparr>info := blank_info\<lparr>info_status := RNum 0, f_inicial := RStr ''2024-01-01'',
                            frec_dias := RNum 7, asignado_a_code := RNum 42\<rparr>,
        tasks_data := Some [pending_task, pending_task]\<rparr>"

text \<open>A database as \<open>initAPIDB\<close> leaves an empty one: both meta tables at version 1.\<close>

definition fresh_db :: tables where
  "fresh_db =
     \<lparr>users = [],
      usersMeta = [\<lparr>version = 1, changeLog = [''init users meta v1'']\<rparr>],
      orders = [],
      ordersMeta = [\<lparr>version = 1, changeLog = [''init orders meta v1'']\<rparr>]\<rparr>"

text \<open>
  Modelled from the spec: the helpers \<open>parseChileDateString\<close>, \<open>startOfChileDay\<close> and
  \<open>addChileDays\<close> of \<open>@/utils/timezone\<close> are missing from the sources. The spec has them
  work on day boundaries and day arithmetic in one fixed time zone; this environment, used
  to run the definitions on the scenarios, fixes the offset -03:00 and days of 86400000 ms.
  It knows the dates of the scenarios: 2024-01-01 as a start date, and the instants
  09:00 of 2024-01-13 and of 2024-01-10 as clock readings, printed and parsed back as
  canonical time stamps.
\<close>

definition sample_env :: "int \<Rightarrow> env" where
  "sample_env now =
     \<lparr>now_ms = now,
      formatISO = (\<lambda>t. if t = 1705147200000 then ''2024-01-13T09:00:00.000-03:00''
                        else if t = 1704888000000 then ''2024-01-10T09:00:00.000-03:00''
                        else []),
      newDate = (\<lambda>s. if s = ''2024-01-13T09:00:00.000-03:00'' then Some 1705147200000
                      else if s = ''2024-01-10T09:00:00.000-03:00'' then Some 1704888000000
                      else None),
      parseChileDateString =
        (\<lambda>v. if v = DPrim (RStr ''2024-01-01'') then Some 1704078000000 else None),
      startOfChileDay = (\<lambda>t. Some (t - ((t - 10800000) mod 86400000))),
      addChileDays = (\<lambda>t n. Some (t + n * 86400000))\<rparr>"

text \<open>The clock readings of the scenarios: 09:00 on 2024-01-13 and on 2024-01-10.\<close>

definition jan13 :: int where
  "jan13 = 1705147200000"

definition jan10 :: int where
  "jan10 = 1704888000000"

text \<open>The store of the scenarios: a fresh database and no storage fault to come.\<close>

definition fresh_world :: world where
  "fresh_world = \<lparr>db = fresh_db, faults = []\<rparr>"


text \<open>
  A store that holds the order of the expiration scenario, still pending, and the same
  store with two more orders: order 3 of the same assignee 42 and order 4 of assignee 7.
\<close>

definition overdue_world :: world where
  "overdue_world = \<lparr>db = fresh_db\<lparr>orders := [scenario_order]\<rparr>, faults = []\<rparr>"

definition assigned_order :: "int \<Rightarrow> int \<Rightarrow> order" where
  "assigned_order c u =
     (blank_order (RNum c))\<lparr>info := blank_info\<lparr>info_status := RNum 0, asignado_a_code := RNum u\<rparr>\<rparr>"


text \<open>
  Snapshots: one at version 1 without orders, one at version 5 that carries orders 2 and
  3 of assignee 42; the context that names assignee 42 and the context that names nothing.
\<close>

definition orders_snapshot_v1 :: orders_snapshot where
  "orders_snapshot_v1 = \<lparr>os_meta = Some \<lparr>version = 1, changeLog = []\<rparr>, os_orders = Some []\<rparr>"

definition orders_snapshot_v5 :: orders_snapshot where
  "orders_snapshot_v5 =
     \<lparr>os_meta = Some \<lparr>version = 5, changeLog = [''remote'']\<rparr>,
      os_orders = Some [assigned_order 2 42,
                        (assigned_order 3 42)\<lparr>numero := RStr ''updated''\<rparr>]\<rparr>"

definition users_snapshot_v1 :: users_snapshot where
  "users_snapshot_v1 = \<lparr>us_meta = Some \<lparr>version = 1, changeLog = []\<rparr>, us_users = Some []\<rparr>"

definition users_snapshot_v5 :: users_snapshot where
  "users_snapshot_v5 = \<lparr>us_meta = Some \<lparr>version = 5, changeLog = [''remote'']\<rparr>, us_users = Some []\<rparr>"

definition context_user42 :: snapshot_context where
  "context_user42 = \<lparr>ctx_userCode = RNum 42, ctx_speciality = RUndef\<rparr>"

definition context_none :: snapshot_context where
  "context_none = \<lparr>ctx_userCode = RUndef, ctx_speciality = RUndef\<rparr>"







text \<open>
  An order of assignee 42 without expiration dates whose first task was started at 09:00
  on 2024-01-10, and a store that holds it.
\<close>

definition started_order :: order where
  "started_order =
     (assigned_order 5 42)
       \<lparr>tasks_data := Some [pending_task\<lparr>status := Some 1,
                                         init_task := Some ''2024-01-10T09:00:00.000-03:00''\<rparr>,
                            pending_task]\<rparr>"

definition started_world :: world where
  "started_world = \<lparr>db = fresh_db\<lparr>orders := [started_order]\<rparr>, faults = []\<rparr>"

text \<open>The \<open>updates\<close> object \<open>{}\<close>.\<close>

definition no_updates :: task_updates where
  "no_updates =
     \<lparr>up_completed_by = RUndef, up_accepted = RUndef, up_obs = RUndef, up_medicion = RUndef,
      up_rangoDesde = RUndef, up_rangoHasta = RUndef\<rparr>"

text \<open>
  An environment whose \<open>new Date\<close> accepts the time stamp
  \<open>2024-01-01T10:00:00-03:59\<close> and nothing else: in particular neither an offset with
  fractional minutes nor one with minutes above 59.
\<close>

definition legacy_env :: env where
  "legacy_env =
     (sample_env jan13)
       \<lparr>newDate := (\<lambda>s. if s = ''2024-01-01T10:00:00-03:59'' then Some 1704117540000 else None)\<rparr>"

section \<open>Properties\<close>

lemma digits_val_append:
  "digits_val acc (xs @ [c]) = digits_val acc xs * 10 + digit_val c"
  by (induction xs arbitrary: acc) simp_all

text \<open>
  C4. For every task list the derived order status is 2 when all tasks have status 2,
  otherwise 1 when some task has status 1 or 2, otherwise 0; the status depends on
  nothing but the statuses of the tasks, so recomputing it on an unchanged list gives
  the same value.
\<close>

theorem calculateOrderStatus_rule:
  "calculateOrderStatus (Some ts) =
     (if (\<forall>t \<in> set ts. status t = Some 2) then 2
      else if (\<exists>t \<in> set ts. status t \<in> {Some 1, Some 2}) then 1 else 0)
   \<and> (map status ts = map status ts' \<longrightarrow>
        calculateOrderStatus (Some ts) = calculateOrderStatus (Some ts'))"
proof
  show "calculateOrderStatus (Some ts) =
     (if (\<forall>t \<in> set ts. status t = Some 2) then 2
      else if (\<exists>t \<in> set ts. status t \<in> {Some 1, Some 2}) then 1 else 0)"
    by (auto simp: calculateOrderStatus_def list_all_iff list_ex_iff)
next
  have all: "list_all (\<lambda>t. status t = Some 2) xs = list_all (\<lambda>s. s = Some 2) (map status xs)"
    for xs :: "task list"
    by (simp add: list_all_iff)
  have ex: "list_ex (\<lambda>t. status t = Some 1 \<or> status t = Some 2) xs
            = list_ex (\<lambda>s. s = Some 1 \<or> s = Some 2) (map status xs)"
    for xs :: "task list"
    by (simp add: list_ex_iff)
  show "map status ts = map status ts' \<longrightarrow>
        calculateOrderStatus (Some ts) = calculateOrderStatus (Some ts')"
    by (simp add: calculateOrderStatus_def all ex)
qed

theorem calculateOrderStatus_rule_witness:
  "calculateOrderStatus (Some [pending_task\<lparr>status := Some 2\<rparr>, pending_task]) = 1
   \<and> calculateOrderStatus (Some [pending_task\<lparr>status := Some 2\<rparr>, pending_task])
     = calculateOrderStatus
         (Some [pending_task\<lparr>status := Some 2, end_task := Some ''x''\<rparr>, pending_task])"
  using calculateOrderStatus_rule
    [of "[pending_task\<lparr>status := Some 2\<rparr>, pending_task]"
        "[pending_task\<lparr>status := Some 2, end_task := Some ''x''\<rparr>, pending_task]"]
  by (simp add: pending_task_def)

lemma io_bind_return [simp]: "io_bind (io_return a) f = f a"
  by (simp add: io_bind_def io_return_def)

lemma io_bind_throw [simp]: "io_bind (io_throw e) f = io_throw e"
  by (simp add: io_bind_def io_throw_def)

lemma io_bind_apply:
  "io_bind m f w = (case m w of (Inl e, w') \<Rightarrow> (Inl e, w') | (Inr a, w') \<Rightarrow> f a w')"
  by (simp add: io_bind_def)

lemma io_bind_ok: "m w = (Inr a, w') \<Longrightarrow> io_bind m f w = f a w'"
  by (simp add: io_bind_def)

lemma io_bind_err: "m w = (Inl e, w') \<Longrightarrow> io_bind m f w = (Inl e, w')"
  by (simp add: io_bind_def)

lemma db_read_apply [simp]: "db_read f w = (Inr (f (db w)), w)"
  by (simp add: db_read_def)

lemma io_return_apply [simp]: "io_return a w = (Inr a, w)"
  by (simp add: io_return_def)

lemma io_throw_apply [simp]: "io_throw e w = (Inl e, w)"
  by (simp add: io_throw_def)

lemma db_write_ok: "faults w = [] \<Longrightarrow> db_write f w = (Inr (), w\<lparr>db := f (db w)\<rparr>)"
  by (simp add: db_write_def)

lemma transaction_ok: "body w = (Inr a, w') \<Longrightarrow> transaction body w = (Inr a, w')"
  by (simp add: transaction_def)

lemma transaction_err:
  "body w = (Inl e, w') \<Longrightarrow> transaction body w = (Inl e, w'\<lparr>db := db w\<rparr>)"
  by (simp add: transaction_def)

lemma digit_char_digit:
  "n < 10 \<Longrightarrow> is_digit (digit_char n) \<and> digit_val (digit_char n) = int n"
proof -
  assume "n < 10"
  then have "n \<in> {0,1,2,3,4,5,6,7,8,9}" by auto
  then show ?thesis
    by (auto simp: digit_char_def is_digit_def digit_val_def)
qed

lemma dec_digits: "list_all is_digit (dec n) \<and> dec n \<noteq> []"
proof (induction n rule: dec.induct)
  case (1 n)
  show ?case
  proof (cases "n < 10")
    case True
    then show ?thesis using digit_char_digit[of "nat n"] by (simp add: dec.simps[of n])
  next
    case False
    then show ?thesis using 1 digit_char_digit[of "nat (n mod 10)"]
      by (simp add: dec.simps[of n])
  qed
qed

lemma digits_val_dec: "0 \<le> n \<Longrightarrow> digits_val 0 (dec n) = n"
proof (induction n rule: dec.induct)
  case (1 n)
  show ?case
  proof (cases "n < 10")
    case True
    then show ?thesis using 1(2) digit_char_digit[of "nat n"] by (simp add: dec.simps[of n])
  next
    case False
    then show ?thesis using 1 digit_char_digit[of "nat (n mod 10)"]
      by (simp add: dec.simps[of n] digits_val_append)
  qed
qed

lemma digit_not_space: "is_digit c \<Longrightarrow> \<not> is_space c \<and> c \<noteq> CHR ''-'' \<and> c \<noteq> CHR ''+''"
  by (auto simp: is_digit_def is_space_def)

lemma takeWhile_all: "list_all P xs \<Longrightarrow> takeWhile P xs = xs"
  by (induction xs) auto

lemma trim_no_space: "s \<noteq> [] \<Longrightarrow> \<not> is_space (hd s) \<Longrightarrow> \<not> is_space (last s) \<Longrightarrow> trim s = s"
proof -
  assume a: "s \<noteq> []" "\<not> is_space (hd s)" "\<not> is_space (last s)"
  then have 1: "dropWhile is_space s = s" by (cases s) auto
  from a have "rev s \<noteq> []" "\<not> is_space (hd (rev s))" by (auto simp: hd_rev)
  then have 2: "dropWhile is_space (rev s) = rev s" by (cases "rev s") auto
  show ?thesis by (simp add: trim_def 1 2)
qed

lemma parseInt_digits:
  assumes "list_all is_digit ds" "ds \<noteq> []"
  shows "parseInt (trim ds) = Some (digits_val 0 ds)"
    and "parseInt (trim (CHR ''-'' # ds)) = Some (- digits_val 0 ds)"
proof -
  obtain c r where cr: "ds = c # r" using assms by (cases ds) auto
  have hd: "is_digit (hd ds)" "is_digit (last ds)"
    using assms by (auto simp: list_all_iff)
  have c: "is_digit c" using hd cr by simp
  have t1: "trim ds = ds"
    using assms hd digit_not_space by (intro trim_no_space) auto
  have t2: "trim (CHR ''-'' # ds) = CHR ''-'' # ds"
    using assms hd digit_not_space by (intro trim_no_space) (auto simp: is_space_def)
  have dw: "dropWhile is_space ds = ds" using cr c digit_not_space by simp
  have tw: "takeWhile is_digit ds = ds" using assms by (simp add: takeWhile_all)
  have u: "(case ds of [] \<Rightarrow> [] | c # r \<Rightarrow> if c = CHR ''-'' \<or> c = CHR ''+'' then r else ds) = ds"
    using c digit_not_space[OF c] by (simp add: cr)
  have neg: "(case ds of [] \<Rightarrow> False | c # _ \<Rightarrow> c = CHR ''-'') = False"
    using c digit_not_space[OF c] by (simp add: cr)
  show "parseInt (trim ds) = Some (digits_val 0 ds)"
    unfolding t1 parseInt_def dw Let_def u neg tw
    using assms(2) by simp
  show "parseInt (trim (CHR ''-'' # ds)) = Some (- digits_val 0 ds)"
    unfolding t2 parseInt_def Let_def
    by (simp add: is_space_def tw assms(2))
qed

lemma parseInt_show_int: "parseInt (trim (show_int n)) = Some n"
  using parseInt_digits[of "dec n"] parseInt_digits[of "dec (- n)"] dec_digits
  by (simp add: show_int_def digits_val_dec)

lemma toInt_RNum [simp]: "toInt (RNum n) = Some n"
  by (simp add: toInt_def parseInt_show_int)

lemma meta_last_None [simp]: "meta_last ms = None \<longleftrightarrow> ms = []"
  by (induction ms) (auto split: option.splits)

lemma meta_last_max:
  "meta_last ms = Some l \<Longrightarrow> l \<in> set ms \<and> (\<forall>m \<in> set ms. version m \<le> version l)"
proof (induction ms arbitrary: l)
  case Nil
  then show ?case by simp
next
  case (Cons a ms)
  show ?case
  proof (cases "meta_last ms")
    case None
    then show ?thesis using Cons.prems by simp
  next
    case (Some k)
    from Cons.IH[OF Some] Cons.prems Some show ?thesis
      by (auto split: if_splits)
  qed
qed

lemma meta_last_snoc:
  "\<forall>m \<in> set ms. version m < version n \<Longrightarrow> meta_last (ms @ [n]) = Some n"
  by (induction ms) (auto split: option.splits)

lemma tbl_put_fresh: "\<forall>y \<in> set xs. key y \<noteq> key x \<Longrightarrow> tbl_put key x xs = xs @ [x]"
  by (auto simp: tbl_put_def list_ex_iff)

lemma meta_last_put_greater:
  assumes "\<forall>m \<in> set ms. version m < version n"
  shows "meta_last (tbl_put version n ms) = Some n"
proof -
  have "\<forall>y \<in> set ms. version y \<noteq> version n" using assms by auto
  then show ?thesis using assms by (simp add: tbl_put_fresh meta_last_snoc)
qed

lemma meta_last_bump:
  "meta_last (tbl_put version (next_meta (meta_last ms) line) ms)
     = Some (next_meta (meta_last ms) line)"
proof (cases "meta_last ms")
  case None
  then show ?thesis by (simp add: tbl_put_def)
next
  case (Some l)
  from meta_last_max[OF Some] have "\<forall>m \<in> set ms. version m < version (next_meta (Some l) line)"
    by (auto simp: next_meta_def)
  then show ?thesis using Some by (simp add: meta_last_put_greater)
qed

lemma version_next_meta:
  "version (next_meta latest line) = (case latest of None \<Rightarrow> 1 | Some m \<Rightarrow> version m + 1)"
  by (simp add: next_meta_def split: option.splits)

lemma meta_last_put_newer:
  assumes "ms \<noteq> [] \<or> 0 < v" "version_or_0 (meta_last ms) < v"
  shows "meta_last (tbl_put version \<lparr>version = v, changeLog = cl\<rparr> ms)
           = Some \<lparr>version = v, changeLog = cl\<rparr>"
proof (cases "meta_last ms")
  case None
  then show ?thesis by (simp add: tbl_put_def)
next
  case (Some l)
  from meta_last_max[OF Some] assms Some
  have "\<forall>m \<in> set ms. version m < version \<lparr>version = v, changeLog = cl\<rparr>"
    by (auto simp: version_or_0_def)
  then show ?thesis by (rule meta_last_put_greater)
qed

lemma find_append_case:
  "find P (xs @ ys) = (case find P xs of Some x \<Rightarrow> Some x | None \<Rightarrow> find P ys)"
  by (induction xs) auto

lemma find_map_replace_other:
  "key x \<noteq> k \<Longrightarrow>
   find (\<lambda>y. key y = k) (map (\<lambda>y. if key y = key x then x else y) xs) = find (\<lambda>y. key y = k) xs"
  by (induction xs) auto

lemma find_map_replace_same:
  "list_ex (\<lambda>y. key y = key x) xs \<Longrightarrow>
   find (\<lambda>y. key y = key x) (map (\<lambda>y. if key y = key x then x else y) xs) = Some x"
  by (induction xs) auto

lemma tbl_get_put:
  "tbl_get key k (tbl_put key x xs) = (if key x = k then Some x else tbl_get key k xs)"
proof (cases "list_ex (\<lambda>y. key y = key x) xs")
  case True
  then show ?thesis
    using find_map_replace_same[OF True] find_map_replace_other[of key x k xs]
    by (auto simp: tbl_get_def tbl_put_def)
next
  case False
  then have "find (\<lambda>y. key y = key x) xs = None"
    by (simp add: find_None_iff list_ex_iff)
  then show ?thesis using False
    by (auto simp: tbl_get_def tbl_put_def find_append_case split: option.splits)
qed

lemma tbl_get_delete:
  "tbl_get key k (tbl_delete key k' xs) = (if k = k' then None else tbl_get key k xs)"
  by (induction xs) (auto simp: tbl_get_def tbl_delete_def)


lemma tbl_get_bulkDelete:
  "tbl_get key k (tbl_bulkDelete key ks xs) = (if k \<in> set ks then None else tbl_get key k xs)"
  unfolding tbl_bulkDelete_def
  by (induction ks arbitrary: xs) (auto simp: tbl_get_delete)

lemma fold_sweep_step:
  "fst (fold (sweep_step e today ea cs) os acc)
     = fst acc @ List.map_filter (\<lambda>x. pushed (sweep_action e today ea cs x)) os"
proof (induction os arbitrary: acc)
  case Nil
  then show ?case by (simp add: List.map_filter_simps)
next
  case (Cons a os)
  obtain u m r where acc: "acc = (u, m, r)" by (cases acc) auto
  have "fst (sweep_step e today ea cs a acc)
          = fst acc @ (case pushed (sweep_action e today ea cs a) of None \<Rightarrow> [] | Some x \<Rightarrow> [x])"
    by (cases "sweep_action e today ea cs a") (simp_all add: acc sweep_step_def)
  then show ?case
    by (simp add: Cons.IH List.map_filter_simps split: option.splits)
qed

lemma bumpOrdersVersion_no_faults:
  "faults w = [] \<Longrightarrow>
   bumpOrdersVersion e r w =
     (Inr (version (next_meta (meta_last (ordersMeta (db w))) (nowISO e @ '' - '' @ r))),
      w\<lparr>db := (db w)\<lparr>ordersMeta :=
           tbl_put version (next_meta (meta_last (ordersMeta (db w))) (nowISO e @ '' - '' @ r))
             (ordersMeta (db w))\<rparr>\<rparr>)"
  by (simp add: bumpOrdersVersion_def io_bind_apply db_write_ok)


lemma markOrdersExpired_open_no_faults:
  assumes "faults w = []"
  shows "\<exists>r line. markOrdersExpired_open e cs w =
     (Inr r,
      (case startOfChileDay e (now_ms e) of
         None \<Rightarrow> w
       | Some today \<Rightarrow>
           if sweep_updates e today cs (orders (db w)) = [] then w
           else w\<lparr>db := (db w)
                  \<lparr>orders := tbl_bulkPut code (sweep_updates e today cs (orders (db w))) (orders (db w)),
                   ordersMeta := tbl_put version (next_meta (meta_last (ordersMeta (db w))) line)
                                   (ordersMeta (db w))\<rparr>\<rparr>))"
proof (cases "startOfChileDay e (now_ms e)")
  case None
  then show ?thesis
    by (simp add: markOrdersExpired_open_def Let_def io_bind_apply)
next
  case (Some today)
  let ?cs = "case cs of Some c \<Rightarrow> List.map_filter toInt c | None \<Rightarrow> []"
  obtain u m r where f: "fold (sweep_step e today (?cs = []) ?cs) (orders (db w)) ([], 0, 0) = (u, m, r)"
    by (cases "fold (sweep_step e today (?cs = []) ?cs) (orders (db w)) ([], 0, 0)") auto
  have u: "u = sweep_updates e today cs (orders (db w))"
    using fold_sweep_step[of e today "?cs = []" ?cs "orders (db w)" "([], 0, 0)"] f
    by (simp add: sweep_updates_def Let_def)
  show ?thesis
  proof (cases "u = []")
    case True
    then show ?thesis using Some f u
      by (auto simp: markOrdersExpired_open_def Let_def io_bind_apply)
  next
    case False
    then have ne: "orders (db w) \<noteq> []" using u
      by (auto simp: sweep_updates_def List.map_filter_simps)
    have w1: "faults (w\<lparr>db := (db w)\<lparr>orders := tbl_bulkPut code u (orders (db w))\<rparr>\<rparr>) = []"
      using assms by simp
    show ?thesis using Some f False ne assms u[symmetric]
      by (simp add: markOrdersExpired_open_def Let_def io_bind_apply db_write_ok
          transaction_def bumpOrdersVersion_no_faults[OF w1]) blast
  qed
qed

lemma tbl_put_nonempty [simp]: "tbl_put key x xs \<noteq> []"
  by (auto simp: tbl_put_def list_ex_iff)

lemma version_or_0_bump:
  "version_or_0 (meta_last ms)
     \<le> version_or_0 (meta_last (tbl_put version (next_meta (meta_last ms) line) ms))"
  by (simp add: meta_last_bump version_or_0_def version_next_meta split: option.splits)

lemma initAPIDB_no_faults:
  assumes "faults w = []"
  shows "\<exists>w'. initAPIDB e w = (Inr (), w') \<and> faults w' = []
           \<and> users (db w') = users (db w)
           \<and> usersMeta (db w') =
               (if usersMeta (db w) = []
                then [\<lparr>version = 1, changeLog = [nowISO e @ '' - init users meta v1'']\<rparr>]
                else usersMeta (db w))
           \<and> ordersMeta (db w') \<noteq> []
           \<and> version_or_0 (meta_last (ordersMeta (db w)))
               \<le> version_or_0 (meta_last (ordersMeta (db w')))
           \<and> orders (db w') =
               (case startOfChileDay e (now_ms e) of
                  None \<Rightarrow> orders (db w)
                | Some today \<Rightarrow>
                    tbl_bulkPut code (sweep_updates e today None (orders (db w))) (orders (db w)))"
proof -
  define w1 where "w1 = (if usersMeta (db w) = []
      then w\<lparr>db := (db w)\<lparr>usersMeta := tbl_put version
             \<lparr>version = 1, changeLog = [nowISO e @ '' - init users meta v1'']\<rparr> (usersMeta (db w))\<rparr>\<rparr>
      else w)"
  define w2 where "w2 = (if ordersMeta (db w1) = []
      then w1\<lparr>db := (db w1)\<lparr>ordersMeta := tbl_put version
             \<lparr>version = 1, changeLog = [nowISO e @ '' - init orders meta v1'']\<rparr> (ordersMeta (db w1))\<rparr>\<rparr>
      else w1)"
  have f1: "faults w1 = []" using assms by (simp add: w1_def)
  have f2: "faults w2 = []" using f1 by (simp add: w2_def)
  from markOrdersExpired_open_no_faults[OF f2, of e None]
  obtain r line w3 where s: "markOrdersExpired_open e None w2 = (Inr r, w3)"
    and w3: "w3 = (case startOfChileDay e (now_ms e) of
         None \<Rightarrow> w2
       | Some today \<Rightarrow>
           if sweep_updates e today None (orders (db w2)) = [] then w2
           else w2\<lparr>db := (db w2)
                  \<lparr>orders := tbl_bulkPut code (sweep_updates e today None (orders (db w2))) (orders (db w2)),
                   ordersMeta := tbl_put version (next_meta (meta_last (ordersMeta (db w2))) line)
                                   (ordersMeta (db w2))\<rparr>\<rparr>)"
    by blast
  have run: "initAPIDB e w = (Inr (), w3)"
    using assms s unfolding initAPIDB_def w1_def w2_def
    by (cases "usersMeta (db w) = []"; cases "ordersMeta (db w) = []";
        simp add: io_bind_apply db_write_ok try_catch_def)
  have om2: "ordersMeta (db w2) \<noteq> []" by (simp add: w2_def)
  have v2: "version_or_0 (meta_last (ordersMeta (db w))) \<le> version_or_0 (meta_last (ordersMeta (db w2)))"
    by (simp add: w2_def w1_def version_or_0_def tbl_put_def)
  have "faults w3 = []" using f2 by (simp add: w3 split: option.splits)
  moreover have "users (db w3) = users (db w)"
    by (simp add: w3 w2_def w1_def split: option.splits)
  moreover have "usersMeta (db w3) =
               (if usersMeta (db w) = []
                then [\<lparr>version = 1, changeLog = [nowISO e @ '' - init users meta v1'']\<rparr>]
                else usersMeta (db w))"
    by (simp add: w3 w2_def w1_def tbl_put_def split: option.splits)
  moreover have "ordersMeta (db w3) \<noteq> []" using om2 by (simp add: w3 split: option.splits)
  moreover have "version_or_0 (meta_last (ordersMeta (db w)))
               \<le> version_or_0 (meta_last (ordersMeta (db w3)))"
    using v2 version_or_0_bump[of "ordersMeta (db w2)" line]
    by (auto simp: w3 split: option.splits)
  moreover have "orders (db w3) =
               (case startOfChileDay e (now_ms e) of
                  None \<Rightarrow> orders (db w)
                | Some today \<Rightarrow>
                    tbl_bulkPut code (sweep_updates e today None (orders (db w))) (orders (db w)))"
    by (simp add: w3 w2_def w1_def tbl_bulkPut_def split: option.splits)
  ultimately show ?thesis using run by blast
qed

lemma toInt_nullish [simp]: "toInt RUndef = None" "toInt RNull = None"
  by (simp_all add: toInt_def parseInt_def trim_def is_space_def is_digit_def)












text \<open>
  C1. The claim has every mutation of the users and orders tables write the record and
  bump the meta version inside one transaction, so that a failure leaves both unchanged.
  \<open>bulkUpsertOrders\<close> does not: when the storage accepts its \<open>bulkPut\<close> and rejects the
  write of \<open>bumpOrdersVersion\<close>, the call fails, the order stays written and the orders
  meta keeps its version. \<open>cancelOrder\<close>, under the same faults, rolls both back.
\<close>

theorem bulkUpsertOrders_not_atomic:
  "fst (bulkUpsertOrders (sample_env jan13) (Some [blank_order (RNum 7)])
          \<lparr>db = fresh_db, faults = [False, True]\<rparr>) = Inl StorageFailure
   \<and> orders (db (snd (bulkUpsertOrders (sample_env jan13) (Some [blank_order (RNum 7)])
          \<lparr>db = fresh_db, faults = [False, True]\<rparr>))) = [blank_order (RNum 7)]
   \<and> getOrdersMeta (db (snd (bulkUpsertOrders (sample_env jan13) (Some [blank_order (RNum 7)])
          \<lparr>db = fresh_db, faults = [False, True]\<rparr>))) = getOrdersMeta fresh_db
   \<and> fst (cancelOrder (sample_env jan13) (RNum 7) (RStr ''motivo'') (RStr ''detalle'')
          \<lparr>db = fresh_db\<lparr>orders := [blank_order (RNum 7)]\<rparr>, faults = [False, True]\<rparr>)
       = Inl StorageFailure
   \<and> db (snd (cancelOrder (sample_env jan13) (RNum 7) (RStr ''motivo'') (RStr ''detalle'')
          \<lparr>db = fresh_db\<lparr>orders := [blank_order (RNum 7)]\<rparr>, faults = [False, True]\<rparr>))
       = fresh_db\<lparr>orders := [blank_order (RNum 7)]\<rparr>"
  by code_simp

text \<open>
  C8. The claim has \<open>deleteUser\<close> fail with a not-found error, and leave the store
  unchanged, when no user has the code. The code deletes without looking the user up: on
  a store without user 999, \<open>deleteUser(999)\<close> returns normally, and the users meta goes
  from version 1 to version 2 with the line "delete user 999".
\<close>

theorem deleteUser_absent_succeeds:
  "tbl_get ucode (RNum 999) (users (db fresh_world)) = None
   \<and> fst (deleteUser (sample_env jan13) (RNum 999) fresh_world) = Inr ()
   \<and> version_or_0 (getUsersMeta (db fresh_world)) = 1
   \<and> getUsersMeta (db (snd (deleteUser (sample_env jan13) (RNum 999) fresh_world)))
       = Some \<lparr>version = 2,
               changeLog = [''init users meta v1'',
                            ''2024-01-13T09:00:00.000-03:00 - delete user 999'']\<rparr>"
  by code_simp

lemma number_is_simps [simp]:
  "number_is (RNum n) k \<longleftrightarrow> n = k"
  "number_is RNull k \<longleftrightarrow> k = 0"
  "\<not> number_is RUndef k"
  by (simp_all add: number_is_def)

lemma set_map_filter: "set (List.map_filter f xs) = {y. \<exists>x \<in> set xs. f x = Some y}"
  by (induction xs) (auto simp: List.map_filter_simps split: option.splits)

lemma set_toRemove:
  "set (toRemove in_scope keepCodes existing)
     = {k. k \<notin> set keepCodes \<and> (\<exists>x \<in> set existing. in_scope x \<and> toInt (code x) = Some k)}"
  by (auto simp: toRemove_def set_map_filter)

lemma remove_scope_no_faults:
  assumes "faults w = []"
  shows "\<exists>os'. remove_scope in_scope keepCodes w = (Inr (), w\<lparr>db := (db w)\<lparr>orders := os'\<rparr>\<rparr>)
           \<and> (\<forall>k. tbl_get code (RNum k) os' =
                 (if k \<notin> set keepCodes
                     \<and> (\<exists>x \<in> set (orders (db w)). in_scope x \<and> toInt (code x) = Some k)
                  then None else tbl_get code (RNum k) (orders (db w))))"
proof (cases "toRemove in_scope keepCodes (orders (db w)) = []")
  case True
  then have "\<forall>k. \<not> (k \<notin> set keepCodes
                     \<and> (\<exists>x \<in> set (orders (db w)). in_scope x \<and> toInt (code x) = Some k))"
    using set_toRemove[of in_scope keepCodes "orders (db w)"] by auto
  moreover have "remove_scope in_scope keepCodes w = (Inr (), w\<lparr>db := (db w)\<lparr>orders := orders (db w)\<rparr>\<rparr>)"
    using True by (simp add: remove_scope_def io_bind_apply)
  ultimately show ?thesis by metis
next
  case False
  let ?os = "tbl_bulkDelete code (map RNum (remdups (toRemove in_scope keepCodes (orders (db w)))))
               (orders (db w))"
  have "remove_scope in_scope keepCodes w = (Inr (), w\<lparr>db := (db w)\<lparr>orders := ?os\<rparr>\<rparr>)"
    using False assms by (simp add: remove_scope_def io_bind_apply db_write_ok)
  moreover have "\<forall>k. tbl_get code (RNum k) ?os =
                 (if k \<notin> set keepCodes
                     \<and> (\<exists>x \<in> set (orders (db w)). in_scope x \<and> toInt (code x) = Some k)
                  then None else tbl_get code (RNum k) (orders (db w)))"
    using set_toRemove[of in_scope keepCodes "orders (db w)"]
    by (auto simp: tbl_get_bulkDelete)
  ultimately show ?thesis by blast
qed

lemma scopedRemoval_no_faults:
  assumes "faults w = []"
  shows "\<exists>os'. scopedRemoval ctx keepCodes w = (Inr (), w\<lparr>db := (db w)\<lparr>orders := os'\<rparr>\<rparr>)
           \<and> (\<forall>k. tbl_get code (RNum k) os' =
                 (if k \<notin> set keepCodes
                     \<and> (if not_nullish (ctx_userCode ctx)
                         then \<exists>t. toInt (ctx_userCode ctx) = Some t
                                \<and> (\<exists>x \<in> set (orders (db w)).
                                      number_is (asignado_a_code (info x)) t \<and> toInt (code x) = Some k)
                         else not_nullish (ctx_speciality ctx)
                              \<and> (\<exists>t. toInt (ctx_speciality ctx) = Some t
                                \<and> (\<exists>x \<in> set (orders (db w)).
                                      number_is (especialidad_id (info x)) t \<and> toInt (code x) = Some k)))
                  then None else tbl_get code (RNum k) (orders (db w))))"
proof -
  have same: "\<exists>os'. (Inr (), w) = (Inr (), w\<lparr>db := (db w)\<lparr>orders := os'\<rparr>\<rparr>)
              \<and> (\<forall>k. tbl_get code (RNum k) os' = tbl_get code (RNum k) (orders (db w)))"
    by (rule exI[of _ "orders (db w)"]) simp
  show ?thesis
  proof (cases "not_nullish (ctx_userCode ctx)")
    case True
    show ?thesis
    proof (cases "toInt (ctx_userCode ctx)")
      case None
      then show ?thesis using True same by (simp add: scopedRemoval_def)
    next
      case (Some t)
      then show ?thesis using True
          remove_scope_no_faults[OF assms, of "\<lambda>x. number_is (asignado_a_code (info x)) t" keepCodes]
        by (simp add: scopedRemoval_def)
    qed
  next
    case False
    show ?thesis
    proof (cases "not_nullish (ctx_speciality ctx)")
      case n: False
      then show ?thesis using False same by (simp add: scopedRemoval_def)
    next
      case y: True
      show ?thesis
      proof (cases "toInt (ctx_speciality ctx)")
        case None
        then show ?thesis using False y same by (simp add: scopedRemoval_def)
      next
        case (Some t)
        then show ?thesis using False y
            remove_scope_no_faults[OF assms, of "\<lambda>x. number_is (especialidad_id (info x)) t" keepCodes]
          by (simp add: scopedRemoval_def)
      qed
    qed
  qed
qed

lemma applyOrdersSnapshot_stale:
  assumes i: "initAPIDB e w = (Inr (), w0)"
    and s: "version_or_0 (os_meta snap) \<le> version_or_0 (getOrdersMeta (db w0))"
  shows "applyOrdersSnapshot e snap ctx w
           = (Inr \<lparr>applied = False, reason = Some ''stale-version''\<rparr>, w0)"
  unfolding applyOrdersSnapshot_def io_bind_ok[where m = "initAPIDB e", OF i]
  using s by (simp add: io_bind_apply Let_def)

lemma applyUsersSnapshot_stale:
  assumes i: "initAPIDB e w = (Inr (), w0)"
    and s: "version_or_0 (us_meta snap) \<le> version_or_0 (getUsersMeta (db w0))"
  shows "applyUsersSnapshot e snap w
           = (Inr \<lparr>applied = False, reason = Some ''stale-version''\<rparr>, w0)"
  unfolding applyUsersSnapshot_def io_bind_ok[where m = "initAPIDB e", OF i]
  using s by (simp add: io_bind_apply Let_def)

lemma applyOrdersSnapshot_accepted:
  assumes i: "initAPIDB e w = (Inr (), w0)" and f0: "faults w0 = []"
    and s: "\<not> version_or_0 (os_meta snap) \<le> version_or_0 (getOrdersMeta (db w0))"
  shows "\<exists>os'. applyOrdersSnapshot e snap ctx w =
           (Inr \<lparr>applied = True, reason = None\<rparr>,
            w0\<lparr>db := (db w0)
              \<lparr>orders := tbl_bulkPut code
                 (case os_orders snap of Some os \<Rightarrow> List.map_filter normalizeIncoming os | None \<Rightarrow> []) os',
               ordersMeta := tbl_put version
                 \<lparr>version = version_or_0 (os_meta snap),
                  changeLog = (case os_meta snap of Some m \<Rightarrow> changeLog m | None \<Rightarrow> [])\<rparr>
                 (ordersMeta (db w0))\<rparr>\<rparr>)
         \<and> (\<forall>k. tbl_get code (RNum k) os' =
               (if k \<notin> set (List.map_filter (\<lambda>x. toInt (code x))
                        (case os_orders snap of Some os \<Rightarrow> List.map_filter normalizeIncoming os | None \<Rightarrow> []))
                   \<and> (if not_nullish (ctx_userCode ctx)
                       then \<exists>t. toInt (ctx_userCode ctx) = Some t
                              \<and> (\<exists>x \<in> set (orders (db w0)).
                                    number_is (asignado_a_code (info x)) t \<and> toInt (code x) = Some k)
                       else not_nullish (ctx_speciality ctx)
                            \<and> (\<exists>t. toInt (ctx_speciality ctx) = Some t
                              \<and> (\<exists>x \<in> set (orders (db w0)).
                                    number_is (especialidad_id (info x)) t \<and> toInt (code x) = Some k)))
                then None else tbl_get code (RNum k) (orders (db w0))))"
proof -
  let ?N = "case os_orders snap of Some os \<Rightarrow> List.map_filter normalizeIncoming os | None \<Rightarrow> []"
  let ?K = "List.map_filter (\<lambda>x. toInt (code x)) ?N"
  from scopedRemoval_no_faults[OF f0, of ctx ?K] obtain os' where
    r: "scopedRemoval ctx ?K w0 = (Inr (), w0\<lparr>db := (db w0)\<lparr>orders := os'\<rparr>\<rparr>)"
    and g: "\<forall>k. tbl_get code (RNum k) os' =
               (if k \<notin> set ?K
                   \<and> (if not_nullish (ctx_userCode ctx)
                       then \<exists>t. toInt (ctx_userCode ctx) = Some t
                              \<and> (\<exists>x \<in> set (orders (db w0)).
                                    number_is (asignado_a_code (info x)) t \<and> toInt (code x) = Some k)
                       else not_nullish (ctx_speciality ctx)
                            \<and> (\<exists>t. toInt (ctx_speciality ctx) = Some t
                              \<and> (\<exists>x \<in> set (orders (db w0)).
                                    number_is (especialidad_id (info x)) t \<and> toInt (code x) = Some k)))
                then None else tbl_get code (RNum k) (orders (db w0)))"
    by blast
  have "applyOrdersSnapshot e snap ctx w =
           (Inr \<lparr>applied = True, reason = None\<rparr>,
            w0\<lparr>db := (db w0)
              \<lparr>orders := tbl_bulkPut code ?N os',
               ordersMeta := tbl_put version
                 \<lparr>version = version_or_0 (os_meta snap),
                  changeLog = (case os_meta snap of Some m \<Rightarrow> changeLog m | None \<Rightarrow> [])\<rparr>
                 (ordersMeta (db w0))\<rparr>\<rparr>)"
    unfolding applyOrdersSnapshot_def io_bind_ok[where m = "initAPIDB e", OF i]
    using s f0 r
    by (simp add: io_bind_apply Let_def transaction_def db_write_ok tbl_bulkPut_def)
  then show ?thesis using g by blast
qed

lemma applyUsersSnapshot_accepted:
  assumes i: "initAPIDB e w = (Inr (), w0)" and f0: "faults w0 = []"
    and s: "\<not> version_or_0 (us_meta snap) \<le> version_or_0 (getUsersMeta (db w0))"
    and r: "applyUsersSnapshot e snap w = (Inr res, w1)"
  shows "faults w1 = [] \<and> usersMeta (db w1) = tbl_put version
                 \<lparr>version = version_or_0 (us_meta snap),
                  changeLog = (case us_meta snap of Some m \<Rightarrow> changeLog m | None \<Rightarrow> [])\<rparr>
                 (usersMeta (db w0))"
  using r s f0
  unfolding applyUsersSnapshot_def io_bind_ok[where m = "initAPIDB e", OF i]
  by (auto simp: io_bind_apply Let_def transaction_def db_write_ok users_bulkPut_def
      split: option.splits if_splits)

lemma initAPIDB_versions:
  assumes "faults w = []"
  obtains w0 where "initAPIDB e w = (Inr (), w0)" "faults w0 = []"
    "usersMeta (db w0) \<noteq> []" "ordersMeta (db w0) \<noteq> []"
    "version_or_0 (getUsersMeta (db w)) \<le> version_or_0 (getUsersMeta (db w0))"
    "version_or_0 (getOrdersMeta (db w)) \<le> version_or_0 (getOrdersMeta (db w0))"
proof -
  from initAPIDB_no_faults[OF assms, of e] obtain w0 where
    a: "initAPIDB e w = (Inr (), w0)" "faults w0 = []"
    and m: "usersMeta (db w0) =
               (if usersMeta (db w) = []
                then [\<lparr>version = 1, changeLog = [nowISO e @ '' - init users meta v1'']\<rparr>]
                else usersMeta (db w))"
    and b: "ordersMeta (db w0) \<noteq> []"
      "version_or_0 (meta_last (ordersMeta (db w))) \<le> version_or_0 (meta_last (ordersMeta (db w0)))"
    by blast
  have "usersMeta (db w0) \<noteq> []" using m by (simp split: if_splits)
  moreover have "version_or_0 (getUsersMeta (db w)) \<le> version_or_0 (getUsersMeta (db w0))"
    using m by (simp add: getUsersMeta_def version_or_0_def split: if_splits)
  ultimately show ?thesis using a b that by (simp add: getOrdersMeta_def)
qed

text \<open>
  C2 (amended). With no storage fault, a snapshot whose meta version is not above the
  local one is answered \<open>{applied: false, reason: "stale-version"}\<close> and nothing of the
  payload is written: the store is left as \<open>initAPIDB\<close>, which the import awaits first,
  leaves it (seeded meta, expiration sweep), so unchanged when the initialisation has
  nothing to do. Applying a payload again after an import that returned is answered
  \<open>stale-version\<close> in the same way.
\<close>

theorem stale_snapshot_rejected:
  assumes nf: "faults w = []"
  shows "(version_or_0 (us_meta us) \<le> version_or_0 (getUsersMeta (db w)) \<longrightarrow>
            applyUsersSnapshot e us w
              = (Inr \<lparr>applied = False, reason = Some ''stale-version''\<rparr>, snd (initAPIDB e w)))
       \<and> (version_or_0 (os_meta os) \<le> version_or_0 (getOrdersMeta (db w)) \<longrightarrow>
            applyOrdersSnapshot e os ctx w
              = (Inr \<lparr>applied = False, reason = Some ''stale-version''\<rparr>, snd (initAPIDB e w)))
       \<and> (applyUsersSnapshot e us w = (Inr r, w1) \<longrightarrow>
            applyUsersSnapshot e2 us w1
              = (Inr \<lparr>applied = False, reason = Some ''stale-version''\<rparr>, snd (initAPIDB e2 w1)))
       \<and> (applyOrdersSnapshot e os ctx w = (Inr r', w1') \<longrightarrow>
            applyOrdersSnapshot e2 os ctx2 w1'
              = (Inr \<lparr>applied = False, reason = Some ''stale-version''\<rparr>, snd (initAPIDB e2 w1')))"
proof -
  obtain w0 where w0: "initAPIDB e w = (Inr (), w0)" "faults w0 = []"
    "usersMeta (db w0) \<noteq> []" "ordersMeta (db w0) \<noteq> []"
    "version_or_0 (getUsersMeta (db w)) \<le> version_or_0 (getUsersMeta (db w0))"
    "version_or_0 (getOrdersMeta (db w)) \<le> version_or_0 (getOrdersMeta (db w0))"
    using initAPIDB_versions[OF nf, of e] by blast
  have p1: "version_or_0 (us_meta us) \<le> version_or_0 (getUsersMeta (db w)) \<longrightarrow>
            applyUsersSnapshot e us w
              = (Inr \<lparr>applied = False, reason = Some ''stale-version''\<rparr>, snd (initAPIDB e w))"
    using applyUsersSnapshot_stale[OF w0(1), of us] w0(5) by (simp add: w0(1))
  have p2: "version_or_0 (os_meta os) \<le> version_or_0 (getOrdersMeta (db w)) \<longrightarrow>
            applyOrdersSnapshot e os ctx w
              = (Inr \<lparr>applied = False, reason = Some ''stale-version''\<rparr>, snd (initAPIDB e w))"
    using applyOrdersSnapshot_stale[OF w0(1), of os ctx] w0(6) by (simp add: w0(1))
  have p3: "applyUsersSnapshot e2 us w1
              = (Inr \<lparr>applied = False, reason = Some ''stale-version''\<rparr>, snd (initAPIDB e2 w1))"
    if h: "applyUsersSnapshot e us w = (Inr r, w1)"
  proof -
    have a: "faults w1 = [] \<and> version_or_0 (us_meta us) \<le> version_or_0 (getUsersMeta (db w1))"
    proof (cases "version_or_0 (us_meta us) \<le> version_or_0 (getUsersMeta (db w0))")
      case True
      then show ?thesis using applyUsersSnapshot_stale[OF w0(1) True] h w0(2) by simp
    next
      case False
      from applyUsersSnapshot_accepted[OF w0(1) w0(2) False h]
      have f1: "faults w1 = []" and m1: "usersMeta (db w1) = tbl_put version
                 \<lparr>version = version_or_0 (us_meta us),
                  changeLog = (case us_meta us of Some m \<Rightarrow> changeLog m | None \<Rightarrow> [])\<rparr>
                 (usersMeta (db w0))"
        by auto
      have "meta_last (usersMeta (db w1)) = Some \<lparr>version = version_or_0 (us_meta us),
                  changeLog = (case us_meta us of Some m \<Rightarrow> changeLog m | None \<Rightarrow> [])\<rparr>"
        unfolding m1 using False w0(3)
        by (intro meta_last_put_newer) (auto simp: getUsersMeta_def)
      then show ?thesis using f1 by (simp add: getUsersMeta_def version_or_0_def)
    qed
    obtain w2 where w2: "initAPIDB e2 w1 = (Inr (), w2)"
      "version_or_0 (getUsersMeta (db w1)) \<le> version_or_0 (getUsersMeta (db w2))"
      using initAPIDB_versions[of w1 e2] a by blast
    show ?thesis using applyUsersSnapshot_stale[OF w2(1), of us] a w2(2) by (simp add: w2(1))
  qed
  have p4: "applyOrdersSnapshot e2 os ctx2 w1'
              = (Inr \<lparr>applied = False, reason = Some ''stale-version''\<rparr>, snd (initAPIDB e2 w1'))"
    if h: "applyOrdersSnapshot e os ctx w = (Inr r', w1')"
  proof -
    have a: "faults w1' = [] \<and> version_or_0 (os_meta os) \<le> version_or_0 (getOrdersMeta (db w1'))"
    proof (cases "version_or_0 (os_meta os) \<le> version_or_0 (getOrdersMeta (db w0))")
      case True
      then show ?thesis using applyOrdersSnapshot_stale[OF w0(1) True] h w0(2) by simp
    next
      case False
      from applyOrdersSnapshot_accepted[OF w0(1) w0(2) False, of ctx] h
      have f1: "faults w1' = []" and m1: "ordersMeta (db w1') = tbl_put version
                 \<lparr>version = version_or_0 (os_meta os),
                  changeLog = (case os_meta os of Some m \<Rightarrow> changeLog m | None \<Rightarrow> [])\<rparr>
                 (ordersMeta (db w0))"
        using w0(2) by auto
      have "meta_last (ordersMeta (db w1')) = Some \<lparr>version = version_or_0 (os_meta os),
                  changeLog = (case os_meta os of Some m \<Rightarrow> changeLog m | None \<Rightarrow> [])\<rparr>"
        unfolding m1 using False w0(4)
        by (intro meta_last_put_newer) (auto simp: getOrdersMeta_def)
      then show ?thesis using f1 by (simp add: getOrdersMeta_def version_or_0_def)
    qed
    obtain w2 where w2: "initAPIDB e2 w1' = (Inr (), w2)"
      "version_or_0 (getOrdersMeta (db w1')) \<le> version_or_0 (getOrdersMeta (db w2))"
      using initAPIDB_versions[of w1' e2] a by blast
    show ?thesis using applyOrdersSnapshot_stale[OF w2(1), of os ctx2] a w2(2) by (simp add: w2(1))
  qed
  show ?thesis using p1 p2 p3 p4 by blast
qed

text \<open>
  The claim as stated fails: the store holds an order that is overdue on 2024-01-13 and
  the incoming snapshot (version 1) is not newer than the local meta (version 1). The
  import is rejected as stale, yet the store has changed: the initialisation that the
  import awaits first has marked the order expired and bumped the orders meta to 2.
\<close>

theorem stale_snapshot_changes_store:
  "version_or_0 (os_meta orders_snapshot_v1) \<le> version_or_0 (getOrdersMeta (db overdue_world))
   \<and> fst (applyOrdersSnapshot (sample_env jan13) orders_snapshot_v1 context_none overdue_world)
       = Inr \<lparr>applied = False, reason = Some ''stale-version''\<rparr>
   \<and> db (snd (applyOrdersSnapshot (sample_env jan13) orders_snapshot_v1 context_none overdue_world))
       \<noteq> db overdue_world
   \<and> version_or_0 (getOrdersMeta (db overdue_world)) = 1
   \<and> version_or_0 (getOrdersMeta (db (snd
        (applyOrdersSnapshot (sample_env jan13) orders_snapshot_v1 context_none overdue_world)))) = 2"
  by code_simp

theorem stale_snapshot_rejected_witness:
  "applyUsersSnapshot (sample_env jan13) users_snapshot_v1 overdue_world
     = (Inr \<lparr>applied = False, reason = Some ''stale-version''\<rparr>,
        snd (initAPIDB (sample_env jan13) overdue_world))
   \<and> applyOrdersSnapshot (sample_env jan13) orders_snapshot_v1 context_none overdue_world
     = (Inr \<lparr>applied = False, reason = Some ''stale-version''\<rparr>,
        snd (initAPIDB (sample_env jan13) overdue_world))
   \<and> applyUsersSnapshot (sample_env jan10) users_snapshot_v5
        (snd (applyUsersSnapshot (sample_env jan13) users_snapshot_v5 overdue_world))
     = (Inr \<lparr>applied = False, reason = Some ''stale-version''\<rparr>,
        snd (initAPIDB (sample_env jan10)
          (snd (applyUsersSnapshot (sample_env jan13) users_snapshot_v5 overdue_world))))
   \<and> applyOrdersSnapshot (sample_env jan10) orders_snapshot_v5 context_user42
        (snd (applyOrdersSnapshot (sample_env jan13) orders_snapshot_v5 context_user42 overdue_world))
     = (Inr \<lparr>applied = False, reason = Some ''stale-version''\<rparr>,
        snd (initAPIDB (sample_env jan10)
          (snd (applyOrdersSnapshot (sample_env jan13) orders_snapshot_v5 context_user42 overdue_world))))"
proof -
  let ?e = "sample_env jan13"
  let ?u1 = "snd (applyUsersSnapshot ?e users_snapshot_v5 overdue_world)"
  let ?o1 = "snd (applyOrdersSnapshot ?e orders_snapshot_v5 context_user42 overdue_world)"
  have f: "faults overdue_world = []" by (simp add: overdue_world_def)
  have s1: "version_or_0 (us_meta users_snapshot_v1) \<le> version_or_0 (getUsersMeta (db overdue_world))"
    by code_simp
  have s2: "version_or_0 (os_meta orders_snapshot_v1) \<le> version_or_0 (getOrdersMeta (db overdue_world))"
    by code_simp
  have a1: "applyUsersSnapshot ?e users_snapshot_v5 overdue_world
              = (Inr \<lparr>applied = True, reason = None\<rparr>, ?u1)"
    by code_simp
  have a2: "applyOrdersSnapshot ?e orders_snapshot_v5 context_user42 overdue_world
              = (Inr \<lparr>applied = True, reason = None\<rparr>, ?o1)"
    by code_simp
  show ?thesis
    using stale_snapshot_rejected
            [where w = overdue_world and e = ?e and us = users_snapshot_v1
               and os = orders_snapshot_v1 and ctx = context_none, OF f]
          stale_snapshot_rejected
            [where w = overdue_world and e = ?e and us = users_snapshot_v5
               and os = orders_snapshot_v5 and ctx = context_user42
               and ?e2.0 = "sample_env jan10" and ?ctx2.0 = context_user42
               and r = "\<lparr>applied = True, reason = None\<rparr>" and ?w1.0 = ?u1
               and r' = "\<lparr>applied = True, reason = None\<rparr>" and w1' = ?o1, OF f]
          s1 s2 a1 a2
    by simp
qed






text \<open>
  The scope test of the removal converts the stored field: for the assignee 0 it selects
  order 8, whose assignee is \<open>null\<close>, and order 9, whose assignee is the string \<open>" 0 "\<close>,
  but not order 10, which has no assignee.
\<close>

lemma scoped_removal_converts_assignee:
  "map code (orders (db (snd (applyOrdersSnapshot (sample_env jan13) orders_snapshot_v5
       \<lparr>ctx_userCode = RNum 0, ctx_speciality = RUndef\<rparr>
       \<lparr>db = fresh_db\<lparr>orders :=
               [(blank_order (RNum 8))\<lparr>info := blank_info\<lparr>asignado_a_code := RNull\<rparr>\<rparr>,
                (blank_order (RNum 9))\<lparr>info := blank_info\<lparr>asignado_a_code := RStr '' 0 ''\<rparr>\<rparr>,
                blank_order (RNum 10)]\<rparr>,
        faults = []\<rparr>))))
     = [RNum 10, RNum 2, RNum 3]"
  by code_simp



























lemma tbl_get_key: "tbl_get key k xs = Some x \<Longrightarrow> key x = k"
  by (auto simp: tbl_get_def find_Some_iff)

lemma completeOrderTask_no_faults:
  assumes i: "initAPIDB e w = (Inr (), w0)" and f0: "faults w0 = []"
    and c: "toInt orderCode = Some c" and ix: "parseIndex taskIndex = Some idx"
    and o: "tbl_get code (RNum c) (orders (db w0)) = Some ord"
    and t: "tasks_data ord = Some taskList" "idx < length taskList"
  shows "\<exists>res w'. completeOrderTask e orderCode taskIndex updates w = (Inr res, w')
          \<and> duration_seconds (res_task res) = duration_of e ord (taskList ! idx) (nowISO e)
          \<and> hs_reales (info (res_order res)) = Some (hs_reales_of e ord (taskList ! idx) (nowISO e))
          \<and> status (res_task res) = Some 2
          \<and> tbl_get code (RNum c) (orders (db w')) = Some (res_order res)"
  unfolding completeOrderTask_def io_bind_ok[where m = "initAPIDB e", OF i]
  using f0 c ix o t tbl_get_key[OF o]
  by (simp add: io_bind_apply Let_def transaction_def db_write_ok bumpOrdersVersion_no_faults
      tbl_get_put)

lemma parseFlexibleDate_timestamp:
  assumes "newDate e ts = Some now" "ts \<noteq> []" "trim ts = ts"
  shows "parseFlexibleDate e (DPrim (RStr ts)) = Some now"
  using assms by (simp add: parseFlexibleDate_def Let_def)

lemma hs_reales_of_nonneg: "0 \<le> hs_reales_of e ord prevTask ts"
proof -
  have "0 \<le> (d + 18000) div 36000" if "0 < d" for d :: int
    using that by (intro pos_imp_zdiv_nonneg_iff[THEN iffD2]) simp_all
  then show ?thesis
    by (auto simp: hs_reales_of_def split: option.splits)
qed

lemma hs_reales_of_zero:
  "hs_start e ord prevTask = None \<or> hs_end e ord ts = None
     \<or> (\<exists>s t. hs_start e ord prevTask = Some s \<and> hs_end e ord ts = Some t \<and> t - s \<le> 0)
   \<Longrightarrow> hs_reales_of e ord prevTask ts = 0"
  by (auto simp: hs_reales_of_def split: option.splits)

text \<open>
  C6. Take a call of \<open>completeOrderTask\<close> on an existing order and task index, with no
  storage fault, at a moment whose canonical time stamp \<open>new Date\<close> parses (to the
  instant \<open>now\<close>). The call returns, and the task's \<open>duration_seconds\<close> is
  \<open>max(0, floor((now - start) / 1000))\<close>, where \<open>start\<close> is the task's \<open>init_task\<close>
  if it parses, else the order's \<open>fecha_inicio\<close> if it parses, else the completion
  instant itself; so it is never negative. \<open>info.hs_reales\<close> is never negative, and it is
  0 whenever no start candidate or no end candidate parses or the end is not after the
  start.
\<close>

theorem completeOrderTask_duration:
  assumes i: "initAPIDB e w = (Inr (), w0)" and f0: "faults w0 = []"
    and c: "toInt orderCode = Some c" and ix: "parseIndex taskIndex = Some idx"
    and o: "tbl_get code (RNum c) (orders (db w0)) = Some ord"
    and t: "tasks_data ord = Some taskList" "idx < length taskList"
    and clock: "newDate e (nowISO e) = Some now" "nowISO e \<noteq> []" "trim (nowISO e) = nowISO e"
  shows "\<exists>res w'. completeOrderTask e orderCode taskIndex updates w = (Inr res, w')
          \<and> duration_seconds (res_task res) =
              Some (max 0 ((now -
                (case parseFlexibleDate e (stamp (init_task (taskList ! idx))) of
                   Some s \<Rightarrow> s
                 | None \<Rightarrow>
                     (case parseFlexibleDate e (stamp (fecha_inicio (info ord))) of
                        Some s \<Rightarrow> s
                      | None \<Rightarrow> now))) div 1000))
          \<and> (\<exists>d. duration_seconds (res_task res) = Some d \<and> 0 \<le> d)
          \<and> (\<exists>h. hs_reales (info (res_order res)) = Some h \<and> 0 \<le> h
                \<and> (hs_start e ord (taskList ! idx) = None \<or> hs_end e ord (nowISO e) = None
                    \<or> (\<exists>s t. hs_start e ord (taskList ! idx) = Some s
                            \<and> hs_end e ord (nowISO e) = Some t \<and> t - s \<le> 0)
                   \<longrightarrow> h = 0))"
proof -
  from completeOrderTask_no_faults[OF i f0 c ix o t, of updates] obtain res w' where
    run: "completeOrderTask e orderCode taskIndex updates w = (Inr res, w')"
    and d: "duration_seconds (res_task res) = duration_of e ord (taskList ! idx) (nowISO e)"
    and h: "hs_reales (info (res_order res)) = Some (hs_reales_of e ord (taskList ! idx) (nowISO e))"
    by blast
  have p: "parseFlexibleDate e (DPrim (RStr (nowISO e))) = Some now"
    using clock by (rule parseFlexibleDate_timestamp)
  have d': "duration_of e ord (taskList ! idx) (nowISO e) =
              Some (max 0 ((now -
                (case parseFlexibleDate e (stamp (init_task (taskList ! idx))) of
                   Some s \<Rightarrow> s
                 | None \<Rightarrow>
                     (case parseFlexibleDate e (stamp (fecha_inicio (info ord))) of
                        Some s \<Rightarrow> s
                      | None \<Rightarrow> now))) div 1000))"
    using clock(1) p
    by (simp add: duration_of_def duration_start_def duration_end_def split: option.splits)
  have z: "hs_start e ord (taskList ! idx) = None \<or> hs_end e ord (nowISO e) = None
                    \<or> (\<exists>s t. hs_start e ord (taskList ! idx) = Some s
                            \<and> hs_end e ord (nowISO e) = Some t \<and> t - s \<le> 0)
           \<longrightarrow> hs_reales_of e ord (taskList ! idx) (nowISO e) = 0"
    using hs_reales_of_zero[of e ord "taskList ! idx" "nowISO e"] by blast
  show ?thesis
    using run d d' h z hs_reales_of_nonneg[of e ord "taskList ! idx" "nowISO e"]
    by (intro exI[of _ res] exI[of _ w']) simp
qed

theorem completeOrderTask_duration_witness:
  "\<exists>res w'. completeOrderTask (sample_env jan13) (RNum 5) (RNum 0) no_updates started_world
              = (Inr res, w')
      \<and> duration_seconds (res_task res) = Some 259200
      \<and> hs_reales (info (res_order res)) = Some 7200"
proof -
  let ?e = "sample_env jan13"
  have i: "initAPIDB ?e started_world = (Inr (), started_world)" by code_simp
  have f: "faults started_world = []" by (simp add: started_world_def)
  have c: "toInt (RNum 5) = Some 5" by simp
  have ix: "parseIndex (RNum 0) = Some 0" by code_simp
  have o: "tbl_get code (RNum 5) (orders (db started_world)) = Some started_order" by code_simp
  have t: "tasks_data started_order = Some [pending_task\<lparr>status := Some 1,
                                         init_task := Some ''2024-01-10T09:00:00.000-03:00''\<rparr>,
                            pending_task]"
    "0 < length [pending_task\<lparr>status := Some 1,
                                         init_task := Some ''2024-01-10T09:00:00.000-03:00''\<rparr>,
                            pending_task]"
    by (simp_all add: started_order_def)
  have k: "newDate ?e (nowISO ?e) = Some 1705147200000" "nowISO ?e \<noteq> []"
    "trim (nowISO ?e) = nowISO ?e"
    by code_simp+
  have s: "parseFlexibleDate ?e (stamp (init_task
             ([pending_task\<lparr>status := Some 1,
                            init_task := Some ''2024-01-10T09:00:00.000-03:00''\<rparr>,
               pending_task] ! 0))) = Some 1704888000000"
    by code_simp
  have hs: "hs_reales_of ?e started_order
             ([pending_task\<lparr>status := Some 1,
                            init_task := Some ''2024-01-10T09:00:00.000-03:00''\<rparr>,
               pending_task] ! 0) (nowISO ?e) = 7200"
    by code_simp
  from completeOrderTask_duration[OF i f c ix o t k, of no_updates]
  obtain res w' where
    run: "completeOrderTask ?e (RNum 5) (RNum 0) no_updates started_world = (Inr res, w')"
    and d: "duration_seconds (res_task res) = Some 259200"
    unfolding s by auto
  from completeOrderTask_no_faults[OF i f c ix o t, of no_updates] run
  have "hs_reales (info (res_order res)) = Some 7200"
    unfolding hs by auto
  then show ?thesis using run d by blast
qed

lemma digits_val_shift:
  "digits_val a (xs @ ys) = digits_val a xs * 10 ^ length ys + digits_val 0 ys"
proof (induction ys arbitrary: xs rule: rev_induct)
  case Nil
  then show ?case by simp
next
  case (snoc y ys)
  have "digits_val a (xs @ ys @ [y]) = digits_val a ((xs @ ys) @ [y])" by simp
  also have "\<dots> = digits_val a (xs @ ys) * 10 + digit_val y" by (rule digits_val_append)
  finally show ?case
    using snoc[of xs] digits_val_append[of 0 ys y] by (simp add: algebra_simps)
qed

lemma digit_val_range: "is_digit c \<Longrightarrow> 0 \<le> digit_val c \<and> digit_val c \<le> 9"
  by (auto simp: is_digit_def digit_val_def)

lemma digits_val_range:
  "list_all is_digit ds \<Longrightarrow> 0 \<le> digits_val 0 ds \<and> digits_val 0 ds < 10 ^ length ds"
proof (induction ds rule: rev_induct)
  case Nil
  then show ?case by simp
next
  case (snoc c ds)
  then have "0 \<le> digits_val 0 ds" "digits_val 0 ds < 10 ^ length ds"
    "0 \<le> digit_val c" "digit_val c \<le> 9"
    using digit_val_range[of c] by simp_all
  then show ?case by (simp add: digits_val_append)
qed

lemma bitlen_bounds:
  "0 < n \<Longrightarrow> 1 \<le> bitlen n \<and> 2 ^ nat (bitlen n - 1) \<le> n \<and> n < 2 ^ nat (bitlen n)"
proof (induction n rule: bitlen.induct)
  case (1 n)
  show ?case
  proof (cases "n = 1")
    case True
    then show ?thesis by (simp add: bitlen.simps[of 1] bitlen.simps[of 0])
  next
    case False
    then have h: "0 < n div 2" using 1(2) by simp
    define p :: int where "p = 2 ^ nat (bitlen (n div 2) - 1)"
    define q :: int where "q = 2 ^ nat (bitlen (n div 2))"
    have ih: "1 \<le> bitlen (n div 2)" "p \<le> n div 2" "n div 2 < q"
      using 1(1) 1(2) h by (simp_all add: p_def q_def)
    have b: "bitlen n = 1 + bitlen (n div 2)" using 1(2) by (simp add: bitlen.simps[of n])
    have e1: "nat (bitlen n - 1) = Suc (nat (bitlen (n div 2) - 1))" using b ih(1) by simp
    have e2: "nat (bitlen n) = Suc (nat (bitlen (n div 2)))" using b ih(1) by simp
    have "2 * p \<le> n" "n < 2 * q" using ih(2,3) by arith+
    then show ?thesis unfolding e1 e2 using b ih(1) by (simp add: p_def q_def)
  qed
qed

lemma floor_log2_lower:
  assumes "0 < n" "0 < d"
  shows "d * 2 ^ nat (bitlen n - bitlen d - 1) \<le> n * 2 ^ nat (- (bitlen n - bitlen d - 1))"
proof -
  from bitlen_bounds[OF assms(1)] have n: "1 \<le> bitlen n" "2 ^ nat (bitlen n - 1) \<le> n" by simp_all
  from bitlen_bounds[OF assms(2)] have d: "1 \<le> bitlen d" "d < 2 ^ nat (bitlen d)" by simp_all
  define j where "j = bitlen n - bitlen d - 1"
  show ?thesis unfolding j_def[symmetric]
  proof (cases "0 \<le> j")
    case True
    then have z: "nat (- j) = 0" by simp
    have "nat (bitlen n - 1) = nat (bitlen d) + nat j"
      using True d(1) by (simp add: j_def)
    then have "(2::int) ^ nat (bitlen n - 1) = 2 ^ nat (bitlen d) * 2 ^ nat j"
      by (simp add: power_add)
    moreover have "d * 2 ^ nat j \<le> 2 ^ nat (bitlen d) * 2 ^ nat j"
      using d(2) by (intro mult_right_mono) simp_all
    ultimately have "d * 2 ^ nat j \<le> n" using n(2) by linarith
    then show "d * 2 ^ nat j \<le> n * 2 ^ nat (- j)" unfolding z by simp
  next
    case False
    then have z: "nat j = 0" by simp
    have "nat (bitlen d) = nat (bitlen n - 1) + nat (- j)"
      using False n(1) by (simp add: j_def)
    then have "(2::int) ^ nat (bitlen d) = 2 ^ nat (bitlen n - 1) * 2 ^ nat (- j)"
      by (simp add: power_add)
    moreover have "2 ^ nat (bitlen n - 1) * 2 ^ nat (- j) \<le> n * 2 ^ nat (- j)"
      using n(2) by (intro mult_right_mono) simp_all
    ultimately have "d \<le> n * 2 ^ nat (- j)" using d(2) by linarith
    then show "d * 2 ^ nat j \<le> n * 2 ^ nat (- j)" unfolding z by simp
  qed
qed

lemma nearest_double_cases:
  assumes "0 < n" "0 < d"
  obtains e u mant where
    "d * 2 ^ nat e \<le> n * 2 ^ nat (- e)"
    "u = max e (- 1022) - 52"
    "(n * 2 ^ nat (- u)) div (d * 2 ^ nat u) \<le> mant"
    "mant \<le> (n * 2 ^ nat (- u)) div (d * 2 ^ nat u) + 1"
    "nearest_double n d = JFin mant u \<or> (0 \<le> u \<and> nearest_double n d = JInf)"
proof -
  define e0 where "e0 = bitlen n - bitlen d"
  define e where "e = (if snd (scaled n d e0) \<le> fst (scaled n d e0) then e0 else e0 - 1)"
  define u where "u = max e (- 1022) - 52"
  define a where "a = fst (scaled n d u)"
  define b where "b = snd (scaled n d u)"
  define mant where "mant = (if b < 2 * (a mod b) \<or> (2 * (a mod b) = b \<and> odd (a div b))
                  then a div b + 1 else a div b)"
  have nd: "nearest_double n d = (if 0 \<le> u \<and> 2 ^ 1024 \<le> mant * 2 ^ nat u then JInf else JFin mant u)"
    using assms(1) unfolding nearest_double_def Let_def e0_def e_def u_def a_def b_def mant_def
    by simp
  have ab: "a = n * 2 ^ nat (- u)" "b = d * 2 ^ nat u" by (simp_all add: a_def b_def scaled_def)
  have el: "d * 2 ^ nat e \<le> n * 2 ^ nat (- e)"
  proof (cases "snd (scaled n d e0) \<le> fst (scaled n d e0)")
    case True
    then show ?thesis by (simp add: e_def scaled_def)
  next
    case False
    then have "e = e0 - 1" by (simp add: e_def)
    then show ?thesis using floor_log2_lower[OF assms] by (simp add: e0_def)
  qed
  have m: "a div b \<le> mant" "mant \<le> a div b + 1" by (simp_all add: mant_def)
  show ?thesis
    using that[of e u mant] el m nd unfolding ab u_def by (auto split: if_splits)
qed

lemma int_div_ge: "0 < b \<Longrightarrow> c * b \<le> a \<Longrightarrow> c \<le> a div (b::int)"
  using zdiv_mono1[of "c * b" a b] by simp

lemma int_div_lt:
  assumes "0 < (b::int)" "a < c * b"
  shows "a div b < c"
proof -
  have "a div b * b + a mod b = a" by simp
  moreover have "0 \<le> a mod b" using assms(1) by simp
  ultimately have "a div b * b < c * b" using assms(2) by linarith
  then show ?thesis using assms(1) by (simp add: mult_less_cancel_right)
qed

lemma num_trunc_nonneg:
  "0 \<le> m \<Longrightarrow> u < 0 \<Longrightarrow> num_trunc (JFin m u) = Some (m div 2 ^ nat (- u))"
  by (cases "m = 0") simp_all

lemma trunc_lower:
  assumes n: "0 < n" and d: "0 < d" and c: "c * d \<le> n" "0 \<le> c" "c \<le> 59"
    and t: "num_trunc (nearest_double n d) = Some t"
  shows "c \<le> t"
proof -
  from nearest_double_cases[OF n d] obtain e u mant where
    e: "d * 2 ^ nat e \<le> n * 2 ^ nat (- e)"
    and u: "u = max e (- 1022) - 52"
    and m: "(n * 2 ^ nat (- u)) div (d * 2 ^ nat u) \<le> mant"
    and r: "nearest_double n d = JFin mant u \<or> (0 \<le> u \<and> nearest_double n d = JInf)"
    by blast
  from r t have f: "nearest_double n d = JFin mant u" by auto
  show ?thesis
  proof (cases "u < 0")
    case True
    then have z: "nat u = 0" by simp
    define p :: int where "p = 2 ^ nat (- u)"
    have p: "0 < p" by (simp add: p_def)
    have "c * p * d \<le> n * p" using c(1) p by (simp add: mult.commute mult.left_commute)
    then have "c * p \<le> (n * p) div d" using d by (intro int_div_ge) simp_all
    then have mp: "c * p \<le> mant" using m by (simp add: z p_def)
    have "0 \<le> c * p" using c(2) p by simp
    then have "0 \<le> mant" using mp by linarith
    then have "num_trunc (JFin mant u) = Some (mant div p)"
      using True unfolding p_def by (rule num_trunc_nonneg)
    then have "t = mant div p" using t unfolding f by simp
    then show ?thesis using mp p by (simp add: int_div_ge)
  next
    case False
    then have u0: "0 \<le> u" by simp
    then have e52: "e = u + 52" "0 \<le> e" using u by auto
    then have ne: "nat (- e) = 0" "nat e = nat u + 52" "nat (- u) = 0" using u0 by simp_all
    define p :: int where "p = 2 ^ nat u"
    have p: "0 < p" by (simp add: p_def)
    have "d * (p * 2 ^ 52) \<le> n" using e by (simp add: ne power_add p_def)
    then have "2 ^ 52 * (d * p) \<le> n" by (simp add: mult.commute mult.left_commute)
    then have "2 ^ 52 \<le> n div (d * p)" using d p by (intro int_div_ge) simp_all
    then have m52: "(2::int) ^ 52 \<le> mant" using m by (simp add: ne p_def)
    have tp: "t = mant * p" using t f u0 by (simp add: p_def)
    have "mant * 1 \<le> mant * p" using p m52 by (intro mult_left_mono) simp_all
    then have "(2::int) ^ 52 \<le> t" using m52 tp by linarith
    then show ?thesis using c(3) by simp
  qed
qed

lemma trunc_upper:
  assumes n: "0 < n" and d: "0 < d" and s: "n < 64 * d" and b: "n < (M + 1) * d"
  shows "\<exists>t. num_trunc (nearest_double n d) = Some t \<and> t \<le> M + 1 \<and> (d < 2 ^ 47 \<longrightarrow> t \<le> M)"
proof -
  from nearest_double_cases[OF n d] obtain e u mant where
    e: "d * 2 ^ nat e \<le> n * 2 ^ nat (- e)"
    and u: "u = max e (- 1022) - 52"
    and m: "(n * 2 ^ nat (- u)) div (d * 2 ^ nat u) \<le> mant"
       "mant \<le> (n * 2 ^ nat (- u)) div (d * 2 ^ nat u) + 1"
    and r: "nearest_double n d = JFin mant u \<or> (0 \<le> u \<and> nearest_double n d = JInf)"
    by blast
  have e5: "e \<le> 5"
  proof (rule ccontr)
    assume "\<not> e \<le> 5"
    then have e6: "nat e = 6 + nat (e - 6)" "nat (- e) = 0" by simp_all
    have "d * 64 \<le> d * (2 ^ 6 * 2 ^ nat (e - 6))"
      using d by (intro mult_left_mono) simp_all
    also have "\<dots> \<le> n" using e by (simp add: e6 power_add)
    finally show False using s by simp
  qed
  then have u47: "u \<le> - 47" using u by simp
  then have z: "nat u = 0" by simp
  define k where "k = nat (- u) - 47"
  define p :: int where "p = 2 ^ nat (- u)"
  have "nat (- u) = 47 + k" using u47 by (simp add: k_def)
  then have pk: "p = 2 ^ 47 * 2 ^ k" unfolding p_def by (simp only: power_add)
  have p: "0 < p" by (simp add: p_def)
  have p47: "2 ^ 47 \<le> p" using one_le_power[of "2::int" k] by (simp add: pk)
  from r u47 have f: "nearest_double n d = JFin mant u" by auto
  have m': "(n * p) div d \<le> mant" "mant \<le> (n * p) div d + 1"
    using m by (simp_all add: z p_def)
  have "0 \<le> (n * p) div d" using n p d by (simp add: pos_imp_zdiv_nonneg_iff)
  then have m0: "0 \<le> mant" using m'(1) by simp
  have "u < 0" using u47 by simp
  with m0 have "num_trunc (JFin mant u) = Some (mant div p)"
    unfolding p_def by (rule num_trunc_nonneg)
  then have t: "num_trunc (nearest_double n d) = Some (mant div p)"
    unfolding f .
  have "n * p < (M + 1) * p * d"
    using b p by (simp add: mult.commute mult.left_commute)
  then have "(n * p) div d < (M + 1) * p" using d by (intro int_div_lt) simp_all
  then have "mant < (M + 1 + 1) * p" using m'(2) p by (simp add: algebra_simps)
  then have t1: "mant div p < M + 1 + 1" using p by (intro int_div_lt) simp_all
  have t2: "mant div p \<le> M" if dd: "d < 2 ^ 47"
  proof -
    have "n + 1 \<le> (M + 1) * d" using b by simp
    then have "(n + 1) * p \<le> (M + 1) * d * p" using p by (intro mult_right_mono) simp_all
    moreover have "d < p" using dd p47 by simp
    ultimately have "n * p < ((M + 1) * p - 1) * d" by (simp add: algebra_simps)
    then have "(n * p) div d < (M + 1) * p - 1" using d by (intro int_div_lt) simp_all
    then have "mant < (M + 1) * p" using m'(2) by simp
    then have "mant div p < M + 1" using p by (intro int_div_lt) simp_all
    then show ?thesis by simp
  qed
  show ?thesis using t t1 t2 by auto
qed

lemma takeWhile_stop: "\<not> P c \<Longrightarrow> takeWhile P (xs @ c # r) = takeWhile P xs"
  by (induction xs) auto

lemma dropWhile_stop: "\<not> P c \<Longrightarrow> dropWhile P (xs @ c # r) = dropWhile P xs @ c # r"
  by (induction xs) auto

lemma sign_not_digit: "is_sign c \<Longrightarrow> \<not> is_digit c \<and> c \<noteq> CHR '':'' \<and> c \<noteq> CHR ''.''"
  by (auto simp: is_sign_def is_digit_def)

lemma offset_head_append:
  assumes "is_sign c" "p \<noteq> []"
  shows "offset_head (p @ c # r)
           = map_option (\<lambda>(h, m, rest). (h, m, rest @ c # r)) (offset_head p)"
proof -
  note n = sign_not_digit[OF assms(1)]
  consider (1) a where "p = [a]" | (2) a b where "p = [a, b]" | (3) a b d where "p = [a, b, d]"
    | (4) a b d e q where "p = a # b # d # e # q"
    using assms(2) by (cases p rule: list.exhaust; simp; metis list.exhaust)
  then show ?thesis
  proof cases
    case 1
    then show ?thesis using n by (simp add: offset_head_def split: list.splits)
  next
    case 2
    then show ?thesis using n by (simp add: offset_head_def split: list.splits)
  next
    case 3
    then show ?thesis using n by (simp add: offset_head_def split: list.splits)
  next
    case 4
    then show ?thesis using n
      by (simp add: offset_head_def takeWhile_stop dropWhile_stop)
  qed
qed

lemma match_at_append:
  assumes "is_sign c" "p \<noteq> []"
  shows "match_at (p @ c # r)
           = map_option (\<lambda>(h, m, f, rest). (h, m, f, rest @ c # r)) (match_at p)"
proof (cases "offset_head p")
  case None
  then show ?thesis using offset_head_append[OF assms, of r] by (simp add: match_at_def)
next
  case (Some t)
  obtain h m rest where t: "t = (h, m, rest)" by (cases t) auto
  note n = sign_not_digit[OF assms(1)]
  show ?thesis
  proof (cases rest)
    case Nil
    then show ?thesis using Some t n offset_head_append[OF assms, of r]
      by (simp add: match_at_def)
  next
    case (Cons d q)
    then show ?thesis using Some t n offset_head_append[OF assms, of r]
      by (simp add: match_at_def takeWhile_stop dropWhile_stop)
  qed
qed

lemma legacy_replace_append:
  "is_sign c \<Longrightarrow> legacy_replace (p @ c # r) = legacy_replace p @ legacy_replace (c # r)"
proof (induction p rule: legacy_replace.induct)
  case 1
  then show ?case by simp
next
  case (2 a cs)
  have m: "match_at ((a # cs) @ c # r)
           = map_option (\<lambda>(h, m, f, rest). (h, m, f, rest @ c # r)) (match_at (a # cs))"
    using match_at_append[OF 2(3), of "a # cs" r] by simp
  show ?case
  proof (cases "match_at (a # cs)")
    case None
    then show ?thesis using 2(1)[OF None 2(3)] m by simp
  next
    case (Some t)
    obtain h mm f rest where t: "t = (h, mm, f, rest)" by (cases t) auto
    have ih: "legacy_replace (rest @ c # r) = legacy_replace rest @ legacy_replace (c # r)"
      using 2(2)[OF Some[unfolded t] refl refl refl 2(3)] by simp
    show ?thesis using Some t m ih by simp
  qed
qed

lemma match_at_test: "match_at s = Some t \<Longrightarrow> test_at s"
  by (auto simp: match_at_def test_at_def split: option.splits list.splits if_splits)

lemma legacy_replace_id: "\<not> legacy_test s \<Longrightarrow> legacy_replace s = s"
proof (induction s rule: legacy_test.induct)
  case 1
  then show ?case by simp
next
  case (2 c cs)
  then have "match_at (c # cs) = None" using match_at_test[of "c # cs"]
    by (cases "match_at (c # cs)") auto
  then show ?case using 2 by simp
qed

lemma legacy_test_append: "test_at q \<Longrightarrow> legacy_test (p @ q)"
proof (induction p)
  case Nil
  then show ?case by (cases q) (auto simp: test_at_def offset_head_def)
next
  case (Cons a p)
  then show ?case by simp
qed

lemma match_offset:
  assumes "is_sign sg" "is_digit h1" "is_digit h2" "m \<noteq> []" "list_all is_digit m"
    "f \<noteq> []" "list_all is_digit f"
  shows "match_at (sg # h1 # h2 # CHR '':'' # m @ CHR ''.'' # f)
           = Some ([sg, h1, h2], m, CHR ''.'' # f, [])"
proof -
  have d: "\<not> is_digit CHR ''.''" by (simp add: is_digit_def)
  have 1: "takeWhile is_digit (m @ CHR ''.'' # f) = m"
    using assms(5) by (simp add: takeWhile_stop[where P = is_digit, OF d] takeWhile_all)
  have dm: "dropWhile is_digit m = []" using assms(5) by (simp add: list_all_iff)
  have 2: "dropWhile is_digit (m @ CHR ''.'' # f) = CHR ''.'' # f"
    by (simp add: dropWhile_stop[where P = is_digit, OF d] dm)
  have 3: "takeWhile is_digit f = f" "dropWhile is_digit f = []"
    using assms(7) by (simp_all add: takeWhile_all list_all_iff)
  show ?thesis using assms(1-4,6)
    by (simp add: match_at_def offset_head_def 1 2 3)
qed

lemma decimal_number:
  assumes m: "m \<noteq> []" "list_all is_digit m" and f: "f \<noteq> []" "list_all is_digit f"
  shows "js_Number (RStr (m @ CHR ''.'' # f))
           = nearest_double (digits_val 0 m * 10 ^ length f + digits_val 0 f) (10 ^ length f)"
proof -
  obtain c m' where cm: "m = c # m'" using m(1) by (cases m) auto
  have c: "is_digit c" using m(2) cm by simp
  have lf: "is_digit (last f)" using f by (auto simp: list_all_iff)
  have d: "\<not> is_digit CHR ''.''" by (simp add: is_digit_def)
  have t: "trim (m @ CHR ''.'' # f) = c # m' @ CHR ''.'' # f"
    using c lf f(1) digit_not_space by (intro trim_no_space[THEN trans]) (auto simp: cm)
  have p: "is_digit p \<or> p = CHR ''.'' \<Longrightarrow> radix_of p = None" for p
    by (auto simp: radix_of_def is_digit_def)
  have rx: "(case m' @ CHR ''.'' # f of
               p # ds \<Rightarrow> if c = CHR ''0'' then radix_of p else None | [] \<Rightarrow> None) = None"
    using m(2) p by (cases m') (auto simp: cm)
  have ns: "c \<noteq> CHR ''+''" "c \<noteq> CHR ''-''" "c \<noteq> CHR ''I''"
    using c by (auto simp: is_digit_def)
  have 1: "takeWhile is_digit (m @ CHR ''.'' # f) = m"
    using m(2) by (simp add: takeWhile_stop[where P = is_digit, OF d] takeWhile_all)
  have dm: "dropWhile is_digit m = []" using m(2) by (simp add: list_all_iff)
  have 2: "dropWhile is_digit (m @ CHR ''.'' # f) = CHR ''.'' # f"
    by (simp add: dropWhile_stop[where P = is_digit, OF d] dm)
  have 3: "takeWhile is_digit f = f" "dropWhile is_digit f = []"
    using f(2) by (simp_all add: takeWhile_all list_all_iff)
  have dl: "decimal_literal (m @ CHR ''.'' # f)
              = Some (digits_val 0 (m @ f), 10 ^ length f)"
    using m(1) by (simp add: decimal_literal_def Let_def 1 2 3)
  have inf: "c # m' @ CHR ''.'' # f \<noteq> ''Infinity''" using ns by simp
  have "string_to_number (m @ CHR ''.'' # f)
          = nearest_double (digits_val 0 (m @ f)) (10 ^ length f)"
    unfolding string_to_number_def t Let_def list.case rx option.case
    using ns inf dl[unfolded cm] by (simp add: cm)
  then show ?thesis by (simp add: digits_val_shift)
qed

lemma parseInt_digit_string:
  assumes "list_all is_digit ds" "ds \<noteq> []"
  shows "parseInt ds = Some (digits_val 0 ds)"
proof -
  have "is_digit (hd ds)" "is_digit (last ds)" using assms by (auto simp: list_all_iff)
  then have "trim ds = ds" using assms(2) digit_not_space by (intro trim_no_space) auto
  then show ?thesis using parseInt_digits(1)[OF assms] by simp
qed

text \<open>
  The minutes that the sanitizer writes: never more than 59, the value of the minute
  digits or (when the fraction rounds up as a double) the next integer, clamped; and
  exactly the value of the minute digits, clamped, when these are 59 or more or the
  fraction has at most 14 digits.
\<close>

lemma normalizedMinutes_fraction:
  assumes m: "m \<noteq> []" "list_all is_digit m" and f: "f \<noteq> []" "list_all is_digit f"
  shows "0 \<le> normalizedMinutes m (CHR ''.'' # f)"
    and "normalizedMinutes m (CHR ''.'' # f) \<le> 59"
    and "normalizedMinutes m (CHR ''.'' # f)
           \<in> {min 59 (digits_val 0 m), min 59 (digits_val 0 m + 1)}"
    and "59 \<le> digits_val 0 m \<or> length f \<le> 14
           \<Longrightarrow> normalizedMinutes m (CHR ''.'' # f) = min 59 (digits_val 0 m)"
proof -
  define M where "M = digits_val 0 m"
  define F where "F = digits_val 0 f"
  define D :: int where "D = 10 ^ length f"
  define n where "n = M * D + F"
  have M: "0 \<le> M" using digits_val_range[OF m(2)] by (simp add: M_def)
  have F: "0 \<le> F" "F < D" using digits_val_range[OF f(2)] by (simp_all add: F_def D_def)
  have D: "0 < D" by (simp add: D_def)
  have num: "js_Number (RStr (m @ CHR ''.'' # f)) = nearest_double n D"
    using decimal_number[OF m f] by (simp add: n_def M_def F_def D_def)
  have nm: "normalizedMinutes m (CHR ''.'' # f) =
     (case num_trunc (nearest_double n D) of
        Some t \<Rightarrow> max 0 (min 59 t)
      | None \<Rightarrow> max 0 (min 59 M))"
    unfolding normalizedMinutes_def num
    by (simp add: parseInt_digit_string[OF m(2) m(1)] M_def cong: option.case_cong)
  have lo: "M * D \<le> n" using F(1) by (simp add: n_def)
  have up: "n < (M + 1) * D" using F(2) by (simp add: n_def algebra_simps)
  show "0 \<le> normalizedMinutes m (CHR ''.'' # f)" "normalizedMinutes m (CHR ''.'' # f) \<le> 59"
    unfolding nm by (simp_all split: option.splits)
  have big: "normalizedMinutes m (CHR ''.'' # f) = 59" if "59 \<le> M"
  proof -
    have "59 * D \<le> M * D" using that D by (intro mult_right_mono) simp_all
    then have c: "59 * D \<le> n" using lo by simp
    then have n0: "0 < n" using D by simp
    show ?thesis
    proof (cases "num_trunc (nearest_double n D)")
      case None
      then show ?thesis using that by (simp add: nm)
    next
      case (Some t)
      from trunc_lower[OF n0 D c _ _ Some] have "59 \<le> t" by simp
      then show ?thesis using Some by (simp add: nm)
    qed
  qed
  have small: "\<exists>t. normalizedMinutes m (CHR ''.'' # f) = t \<and> t \<in> {M, M + 1}
                   \<and> (length f \<le> 14 \<longrightarrow> t = M)" if s: "M \<le> 58"
  proof (cases "n = 0")
    case True
    have md: "0 \<le> M * D" using M D by simp
    then have "M * D = 0" using True lo by linarith
    then have "M = 0" using D by simp
    then show ?thesis using True by (simp add: nm nearest_double_def)
  next
    case False
    have "0 \<le> M * D" using M D by simp
    then have n0: "0 < n" using False lo by linarith
    have "(M + 1) * D \<le> 59 * D" using s D by (intro mult_right_mono) simp_all
    moreover have "59 * D \<le> 64 * D" using D by simp
    ultimately have n64: "n < 64 * D" using up by linarith
    from trunc_upper[OF n0 D n64 up] obtain t where
      t: "num_trunc (nearest_double n D) = Some t" "t \<le> M + 1" "D < 2 ^ 47 \<longrightarrow> t \<le> M"
      by blast
    have tl: "M \<le> t" using trunc_lower[OF n0 D lo M _ t(1)] s by simp
    have "D < 2 ^ 47" if "length f \<le> 14"
    proof -
      have "(10::int) ^ length f \<le> 10 ^ 14" using that by (intro power_increasing) simp_all
      then show ?thesis by (simp add: D_def)
    qed
    then have "length f \<le> 14 \<longrightarrow> t = M" using t(3) tl by auto
    moreover have "normalizedMinutes m (CHR ''.'' # f) = t"
      using t(1,2) tl M s by (simp add: nm)
    ultimately show ?thesis using t(2) tl by auto
  qed
  show "normalizedMinutes m (CHR ''.'' # f)
           \<in> {min 59 (digits_val 0 m), min 59 (digits_val 0 m + 1)}"
  proof (cases "59 \<le> M")
    case True
    then show ?thesis using big by (simp add: M_def)
  next
    case False
    then show ?thesis using small by (auto simp: M_def)
  qed
  show "normalizedMinutes m (CHR ''.'' # f) = min 59 (digits_val 0 m)"
    if "59 \<le> digits_val 0 m \<or> length f \<le> 14"
  proof (cases "59 \<le> M")
    case True
    then show ?thesis using big by (simp add: M_def)
  next
    case False
    then show ?thesis using small that by (auto simp: M_def)
  qed
qed

lemma sanitize_offset:
  assumes "\<not> legacy_test pre" "is_sign sg" "is_digit h1" "is_digit h2"
    "m \<noteq> []" "list_all is_digit m" "f \<noteq> []" "list_all is_digit f"
  shows "sanitizeLegacyOffsetString (pre @ sg # h1 # h2 # CHR '':'' # m @ CHR ''.'' # f)
           = pre @ sg # h1 # h2 # CHR '':'' # padNumber (normalizedMinutes m (CHR ''.'' # f)) 2"
proof -
  let ?off = "sg # h1 # h2 # CHR '':'' # m @ CHR ''.'' # f"
  have ma: "match_at ?off = Some ([sg, h1, h2], m, CHR ''.'' # f, [])"
    using assms(2-8) by (rule match_offset)
  have t: "legacy_test (pre @ ?off)"
    by (rule legacy_test_append) (rule match_at_test[OF ma])
  have r: "legacy_replace ?off
             = sg # h1 # h2 # CHR '':'' # padNumber (normalizedMinutes m (CHR ''.'' # f)) 2"
    using ma by simp
  have "legacy_replace (pre @ ?off) = legacy_replace pre @ legacy_replace ?off"
    using legacy_replace_append[OF assms(2), of pre "h1 # h2 # CHR '':'' # m @ CHR ''.'' # f"]
    by simp
  then show ?thesis
    using t r legacy_replace_id[OF assms(1)] by (simp add: sanitizeLegacyOffsetString_def)
qed

lemma padNumber_minutes:
  assumes "0 \<le> n" "n \<le> 59"
  shows "length (padNumber n 2) = 2 \<and> list_all is_digit (padNumber n 2)
         \<and> digits_val 0 (padNumber n 2) = n"
proof (cases "n < 10")
  case True
  then have d: "dec n = [digit_char (nat n)]" by (simp add: dec.simps[of n])
  have z: "is_digit CHR ''0''" "digit_val CHR ''0'' = 0" by (simp_all add: is_digit_def digit_val_def)
  show ?thesis using True assms(1) digit_char_digit[of "nat n"] z by (simp add: padNumber_def d)
next
  case False
  then have l: "n div 10 < 10" "0 \<le> n div 10" using assms by simp_all
  then have d: "dec n = [digit_char (nat (n div 10)), digit_char (nat (n mod 10))]"
    using False by (simp add: dec.simps[of n] dec.simps[of "n div 10"])
  show ?thesis
    using digit_char_digit[of "nat (n div 10)"] digit_char_digit[of "nat (n mod 10)"] l
    by (simp add: padNumber_def d)
qed

lemma dropWhile_head_mem: "dropWhile P xs = y # ys \<Longrightarrow> y \<in> set xs"
  by (metis list.set_intros(1) set_dropWhileD)

lemma test_at_dot:
  assumes "test_at s"
  shows "CHR ''.'' \<in> set s"
proof -
  obtain t where t: "offset_head s = Some t"
    using assms by (cases "offset_head s") (auto simp: test_at_def)
  obtain h mm b where b: "t = (h, mm, b)" by (cases t) auto
  obtain r where oh: "offset_head s = Some (h, mm, CHR ''.'' # r)"
    using assms t b by (cases b) (auto simp: test_at_def)
  then obtain sg h1 h2 c q where s: "s = sg # h1 # h2 # c # q"
    and d: "dropWhile is_digit q = CHR ''.'' # r"
    by (auto simp: offset_head_def split: list.splits if_splits)
  from dropWhile_head_mem[OF d] show ?thesis by (simp add: s)
qed

lemma no_dot_no_test: "CHR ''.'' \<notin> set s \<Longrightarrow> \<not> legacy_test s"
proof (induction s)
  case Nil
  then show ?case by simp
next
  case (Cons c s)
  then show ?case using test_at_dot[of "c # s"] by auto
qed

lemma parseFlexibleDate_string:
  "parseFlexibleDate e (DPrim (RStr s)) =
     (case (if trim s \<noteq> [] then
              first_parsed (newDate e)
                (trim s # (if sanitizeLegacyOffsetString (trim s) \<noteq> trim s
                           then [sanitizeLegacyOffsetString (trim s)] else []))
            else None) of
        Some t \<Rightarrow> Some t
      | None \<Rightarrow> parseChileDateString e (DPrim (RStr (sanitizeLegacyOffsetString s))))"
  by (simp add: parseFlexibleDate_def Let_def split: option.splits)


text \<open>
  C9 (amended). Take a string time stamp without white space in front that ends in an
  offset \<open>[+-]HH:M...M.F...F\<close> whose minute component carries a fractional part, with no
  such pattern before it. The sanitizer rewrites the offset to \<open>[+-]HH:mm\<close>, where \<open>mm\<close>
  is \<open>Math.trunc(Number("M...M.F...F"))\<close> clamped into 0..59 and written with two digits:
  the value of the minute digits, clamped, when these are 59 or more or the fraction has
  at most 14 digits, and otherwise that value or (when the double rounds up) the next
  integer. The flexible parser tries the string as it is, then the rewritten string, then
  the Chile date parser on the rewritten string, and returns the first instant found. A
  string without a dot (so also one whose offset minutes are above 59 and have no
  fraction) is left as it is by the sanitizer. Whenever every attempt fails, the parser
  returns null.
\<close>

theorem parseFlexibleDate_legacy_offset:
  assumes pre: "\<not> legacy_test pre"
    and sp: "pre = [] \<or> \<not> is_space (hd pre)"
    and hh: "is_sign sg" "is_digit h1" "is_digit h2"
    and mm: "m \<noteq> []" "list_all is_digit m"
    and ff: "f \<noteq> []" "list_all is_digit f"
  shows "sanitizeLegacyOffsetString (pre @ sg # h1 # h2 # CHR '':'' # m @ CHR ''.'' # f)
           = pre @ sg # h1 # h2 # CHR '':'' # padNumber (normalizedMinutes m (CHR ''.'' # f)) 2
       \<and> normalizedMinutes m (CHR ''.'' # f)
           \<in> {min 59 (digits_val 0 m), min 59 (digits_val 0 m + 1)}
       \<and> (59 \<le> digits_val 0 m \<or> length f \<le> 14
            \<longrightarrow> normalizedMinutes m (CHR ''.'' # f) = min 59 (digits_val 0 m))
       \<and> length (padNumber (normalizedMinutes m (CHR ''.'' # f)) 2) = 2
       \<and> list_all is_digit (padNumber (normalizedMinutes m (CHR ''.'' # f)) 2)
       \<and> digits_val 0 (padNumber (normalizedMinutes m (CHR ''.'' # f)) 2)
           = normalizedMinutes m (CHR ''.'' # f)
       \<and> parseFlexibleDate e (DPrim (RStr (pre @ sg # h1 # h2 # CHR '':'' # m @ CHR ''.'' # f)))
           = (case newDate e (pre @ sg # h1 # h2 # CHR '':'' # m @ CHR ''.'' # f) of
                Some t \<Rightarrow> Some t
              | None \<Rightarrow>
                  (case newDate e
                          (pre @ sg # h1 # h2 # CHR '':''
                             # padNumber (normalizedMinutes m (CHR ''.'' # f)) 2) of
                     Some t \<Rightarrow> Some t
                   | None \<Rightarrow>
                       parseChileDateString e
                         (DPrim (RStr (pre @ sg # h1 # h2 # CHR '':''
                                         # padNumber (normalizedMinutes m (CHR ''.'' # f)) 2)))))
       \<and> (CHR ''.'' \<notin> set u \<longrightarrow> sanitizeLegacyOffsetString u = u)
       \<and> (newDate e (trim u) = None \<and> newDate e (sanitizeLegacyOffsetString (trim u)) = None
           \<and> parseChileDateString e (DPrim (RStr (sanitizeLegacyOffsetString u))) = None
          \<longrightarrow> parseFlexibleDate e (DPrim (RStr u)) = None)"
proof -
  let ?s = "pre @ sg # h1 # h2 # CHR '':'' # m @ CHR ''.'' # f"
  let ?c = "pre @ sg # h1 # h2 # CHR '':'' # padNumber (normalizedMinutes m (CHR ''.'' # f)) 2"
  have s: "sanitizeLegacyOffsetString ?s = ?c"
    using pre hh mm ff by (rule sanitize_offset)
  have ne: "?s \<noteq> []" by simp
  have "\<not> is_space sg" using hh(1) by (auto simp: is_sign_def is_space_def)
  then have h: "\<not> is_space (hd ?s)" using sp by (cases pre) auto
  have "is_digit (last f)" using ff by (auto simp: list_all_iff)
  then have l: "\<not> is_space (last ?s)" using ff(1) digit_not_space by simp
  have tr: "trim ?s = ?s" using ne h l by (rule trim_no_space)
  have p: "parseFlexibleDate e (DPrim (RStr ?s))
           = (case newDate e ?s of
                Some t \<Rightarrow> Some t
              | None \<Rightarrow>
                  (case newDate e ?c of
                     Some t \<Rightarrow> Some t
                   | None \<Rightarrow> parseChileDateString e (DPrim (RStr ?c))))"
    unfolding parseFlexibleDate_string tr s using ne
    by (simp split: option.splits)
  have u1: "CHR ''.'' \<notin> set u \<longrightarrow> sanitizeLegacyOffsetString u = u"
    using no_dot_no_test[of u] by (simp add: sanitizeLegacyOffsetString_def)
  have u2: "newDate e (trim u) = None \<and> newDate e (sanitizeLegacyOffsetString (trim u)) = None
           \<and> parseChileDateString e (DPrim (RStr (sanitizeLegacyOffsetString u))) = None
          \<longrightarrow> parseFlexibleDate e (DPrim (RStr u)) = None"
    by (simp add: parseFlexibleDate_string)
  note nm = normalizedMinutes_fraction[OF mm ff]
  show ?thesis
    using s p u1 u2 nm(3,4) padNumber_minutes[OF nm(1,2)] by simp
qed

text \<open>
  The claim as stated fails for minutes above 59 without a fractional part: the sanitizer
  leaves \<open>2024-01-01T10:00:00-03:75\<close> as it is, so the parser never tries the clamped
  form \<open>...-03:59\<close>; with a \<open>new Date\<close> that accepts the clamped form only, the value is
  rejected, while the same string with a fraction, \<open>...-03:75.5\<close>, is clamped and
  parsed.
\<close>

theorem out_of_range_minutes_not_clamped:
  "sanitizeLegacyOffsetString ''2024-01-01T10:00:00-03:75'' = ''2024-01-01T10:00:00-03:75''
   \<and> parseFlexibleDate legacy_env (DPrim (RStr ''2024-01-01T10:00:00-03:75'')) = None
   \<and> newDate legacy_env ''2024-01-01T10:00:00-03:59'' = Some 1704117540000
   \<and> parseFlexibleDate legacy_env (DPrim (RStr ''2024-01-01T10:00:00-03:75.5''))
       = Some 1704117540000"
  by code_simp

theorem parseFlexibleDate_legacy_offset_witness:
  "sanitizeLegacyOffsetString ''2024-01-01T10:00:00-03:75.5'' = ''2024-01-01T10:00:00-03:59''
   \<and> parseFlexibleDate legacy_env (DPrim (RStr ''2024-01-01T10:00:00-03:75.5''))
       = Some 1704117540000
   \<and> sanitizeLegacyOffsetString ''2024-01-01T10:00:00-03:29.999999999999999''
       = ''2024-01-01T10:00:00-03:30''
   \<and> sanitizeLegacyOffsetString ''2024-01-01T10:00:00-03:29.99999999999999''
       = ''2024-01-01T10:00:00-03:29''
   \<and> sanitizeLegacyOffsetString ''2024-01-01T10:00:00-03:75'' = ''2024-01-01T10:00:00-03:75''
   \<and> parseFlexibleDate legacy_env (DPrim (RStr ''ayer'')) = None"
proof -
  have pre: "\<not> legacy_test ''2024-01-01T10:00:00''" by code_simp
  have sp: "''2024-01-01T10:00:00'' = [] \<or> \<not> is_space (hd ''2024-01-01T10:00:00'')" by code_simp
  have hh: "is_sign CHR ''-''" "is_digit CHR ''0''" "is_digit CHR ''3''" by code_simp+
  have mm: "''75'' \<noteq> []" "list_all is_digit ''75''" by code_simp+
  have ff: "''5'' \<noteq> []" "list_all is_digit ''5''" by code_simp+
  have m29: "''29'' \<noteq> []" "list_all is_digit ''29''" by code_simp+
  have f15: "''999999999999999'' \<noteq> []" "list_all is_digit ''999999999999999''" by code_simp+
  have f14: "''99999999999999'' \<noteq> []" "list_all is_digit ''99999999999999''" by code_simp+
  have l14: "59 \<le> digits_val 0 ''29'' \<or> length ''99999999999999'' \<le> 14" by code_simp
  have pad: "padNumber (normalizedMinutes ''75'' (CHR ''.'' # ''5'')) 2 = ''59''" by code_simp
  have pad15: "padNumber (normalizedMinutes ''29'' (CHR ''.'' # ''999999999999999'')) 2 = ''30''"
    by code_simp
  have pad14: "padNumber (min 59 (digits_val 0 ''29'')) 2 = ''29''" by code_simp
  have nd: "newDate legacy_env ''2024-01-01T10:00:00-03:75.5'' = None"
    "newDate legacy_env ''2024-01-01T10:00:00-03:59'' = Some 1704117540000"
    by code_simp+
  have u: "CHR ''.'' \<notin> set ''2024-01-01T10:00:00-03:75''" by code_simp
  have v: "newDate legacy_env (trim ''ayer'') = None"
    "newDate legacy_env (sanitizeLegacyOffsetString (trim ''ayer'')) = None"
    "parseChileDateString legacy_env (DPrim (RStr (sanitizeLegacyOffsetString ''ayer''))) = None"
    by code_simp+
  note t1 = parseFlexibleDate_legacy_offset
              [where e = legacy_env and u = "''2024-01-01T10:00:00-03:75''",
               OF pre sp hh mm ff]
  note t2 = parseFlexibleDate_legacy_offset
              [where e = legacy_env and u = "''ayer''", OF pre sp hh mm ff]
  note t3 = parseFlexibleDate_legacy_offset
              [where e = legacy_env and u = "''ayer''", OF pre sp hh m29 f15]
  note t4 = parseFlexibleDate_legacy_offset
              [where e = legacy_env and u = "''ayer''", OF pre sp hh m29 f14]
  have a: "sanitizeLegacyOffsetString ''2024-01-01T10:00:00-03:75.5'' = ''2024-01-01T10:00:00-03:59''"
    using t1 unfolding pad by simp
  have b: "parseFlexibleDate legacy_env (DPrim (RStr ''2024-01-01T10:00:00-03:75.5''))
       = Some 1704117540000"
    using t1 unfolding pad by (simp add: nd)
  have a15: "sanitizeLegacyOffsetString ''2024-01-01T10:00:00-03:29.999999999999999''
       = ''2024-01-01T10:00:00-03:30''"
    using t3 unfolding pad15 by simp
  have n14: "normalizedMinutes ''29'' (CHR ''.'' # ''99999999999999'') = min 59 (digits_val 0 ''29'')"
    using t4 l14 by blast
  have a14: "sanitizeLegacyOffsetString ''2024-01-01T10:00:00-03:29.99999999999999''
       = ''2024-01-01T10:00:00-03:29''"
    using t4 unfolding n14 pad14 by simp
  have c: "sanitizeLegacyOffsetString ''2024-01-01T10:00:00-03:75'' = ''2024-01-01T10:00:00-03:75''"
    using t1 u by blast
  have d: "parseFlexibleDate legacy_env (DPrim (RStr ''ayer'')) = None"
    using t2 v by blast
  show ?thesis using a b a15 a14 c d by blast
qed

text \<open>
  A transactional step that fails leaves the tables as they were when it began, whichever
  write the storage rejected.
\<close>

lemma transaction_failure_db:
  "fst (io_bind (transaction body) (\<lambda>_. io_return r) w) = Inl err
     \<Longrightarrow> db (snd (io_bind (transaction body) (\<lambda>_. io_return r) w)) = db w"
  by (cases "body w"; cases "fst (body w)")
     (auto simp: io_bind_apply transaction_def split: sum.splits prod.splits)

lemma bind_read: "io_bind (db_read g) k w = k (g (db w)) w"
  by (simp add: io_bind_apply)

lemma cancelOrder_failure_db:
  assumes "initAPIDB e w = (Inr (), w0)"
    and "fst (cancelOrder e orderCode why detail w) = Inl err"
  shows "db (snd (cancelOrder e orderCode why detail w)) = db w0"
  using assms(2) transaction_failure_db
  unfolding cancelOrder_def io_bind_ok[where m = "initAPIDB e", OF assms(1)]
  by (auto simp: io_bind_apply Let_def split: option.splits if_splits)

lemma saveOrderChecklist_failure_db:
  assumes "initAPIDB e w = (Inr (), w0)"
    and "fst (saveOrderChecklist e orderCode checklistData w) = Inl err"
  shows "db (snd (saveOrderChecklist e orderCode checklistData w)) = db w0"
  using assms(2) transaction_failure_db
  unfolding saveOrderChecklist_def io_bind_ok[where m = "initAPIDB e", OF assms(1)]
  by (auto simp: io_bind_apply Let_def split: option.splits if_splits)

lemma startOrderTask_failure_db:
  assumes i: "initAPIDB e w = (Inr (), w0)"
    and f: "fst (startOrderTask e orderCode taskIndex w) = Inl err"
  shows "db (snd (startOrderTask e orderCode taskIndex w)) = db w0"
proof (cases "toInt orderCode")
  case None
  then show ?thesis
    unfolding startOrderTask_def io_bind_ok[where m = "initAPIDB e", OF i] by simp
next
  case c: (Some k)
  show ?thesis
  proof (cases "parseIndex taskIndex")
    case None
    then show ?thesis
      unfolding startOrderTask_def io_bind_ok[where m = "initAPIDB e", OF i] using c by simp
  next
    case x: (Some idx)
    show ?thesis
    proof (cases "tbl_get code (RNum k) (orders (db w0))")
      case None
      then show ?thesis
        unfolding startOrderTask_def io_bind_ok[where m = "initAPIDB e", OF i]
        using c x by (simp add: io_bind_apply)
    next
      case n: (Some ord)
      show ?thesis
      proof (cases "tasks_data ord")
        case None
        then show ?thesis
          unfolding startOrderTask_def io_bind_ok[where m = "initAPIDB e", OF i]
          using c x n by (simp add: io_bind_apply)
      next
        case t: (Some taskList)
        show ?thesis
        proof (cases "idx < length taskList")
          case False
          then show ?thesis
            unfolding startOrderTask_def io_bind_ok[where m = "initAPIDB e", OF i]
            using c x n t by (simp add: io_bind_apply)
        next
          case True
          show ?thesis
            using f c x n t True
            unfolding startOrderTask_def io_bind_ok[where m = "initAPIDB e", OF i]
            apply (simp add: bind_read Let_def split del: if_split)
            apply (erule transaction_failure_db)
            done
        qed
      qed
    qed
  qed
qed

lemma completeOrderTask_failure_db:
  assumes i: "initAPIDB e w = (Inr (), w0)"
    and f: "fst (completeOrderTask e orderCode taskIndex updates w) = Inl err"
  shows "db (snd (completeOrderTask e orderCode taskIndex updates w)) = db w0"
proof (cases "toInt orderCode")
  case None
  then show ?thesis
    unfolding completeOrderTask_def io_bind_ok[where m = "initAPIDB e", OF i] by simp
next
  case c: (Some k)
  show ?thesis
  proof (cases "parseIndex taskIndex")
    case None
    then show ?thesis
      unfolding completeOrderTask_def io_bind_ok[where m = "initAPIDB e", OF i] using c by simp
  next
    case x: (Some idx)
    show ?thesis
    proof (cases "tbl_get code (RNum k) (orders (db w0))")
      case None
      then show ?thesis
        unfolding completeOrderTask_def io_bind_ok[where m = "initAPIDB e", OF i]
        using c x by (simp add: io_bind_apply)
    next
      case n: (Some ord)
      show ?thesis
      proof (cases "tasks_data ord")
        case None
        then show ?thesis
          unfolding completeOrderTask_def io_bind_ok[where m = "initAPIDB e", OF i]
          using c x n by (simp add: io_bind_apply)
      next
        case t: (Some taskList)
        show ?thesis
        proof (cases "idx < length taskList")
          case False
          then show ?thesis
            unfolding completeOrderTask_def io_bind_ok[where m = "initAPIDB e", OF i]
            using c x n t by (simp add: io_bind_apply)
        next
          case True
          show ?thesis
            using f c x n t True
            unfolding completeOrderTask_def io_bind_ok[where m = "initAPIDB e", OF i]
            apply (simp add: bind_read Let_def split del: if_split)
            apply (erule transaction_failure_db)
            done
        qed
      qed
    qed
  qed
qed

text \<open>
  The order operations look the order up, and the task transitions the task, before
  they write: without the order, or without a task at the index, they throw in the state
  that \<open>initAPIDB\<close> left.
\<close>

lemma order_operations_not_found:
  assumes i: "initAPIDB e w = (Inr (), w0)"
    and c: "toInt orderCode = Some k"
    and n: "tbl_get code (RNum k) (orders (db w0)) = None"
    and x: "parseIndex taskIndex = Some idx"
  shows "cancelOrder e orderCode why detail w = (Inl OrderNotFound, w0)"
    and "saveOrderChecklist e orderCode checklistData w = (Inl OrderNotFound, w0)"
    and "startOrderTask e orderCode taskIndex w = (Inl OrderNotFound, w0)"
    and "completeOrderTask e orderCode taskIndex updates w = (Inl OrderNotFound, w0)"
  unfolding cancelOrder_def saveOrderChecklist_def startOrderTask_def completeOrderTask_def
    io_bind_ok[where m = "initAPIDB e", OF i]
  using c n x by (simp_all add: io_bind_apply)

lemma task_transitions_not_found:
  assumes i: "initAPIDB e w = (Inr (), w0)"
    and c: "toInt orderCode = Some k"
    and n: "tbl_get code (RNum k) (orders (db w0)) = Some ord"
    and x: "parseIndex taskIndex = Some idx"
    and t: "case tasks_data ord of None \<Rightarrow> True | Some ts \<Rightarrow> length ts \<le> idx"
  shows "startOrderTask e orderCode taskIndex w = (Inl TaskNotFound, w0)"
    and "completeOrderTask e orderCode taskIndex updates w = (Inl TaskNotFound, w0)"
  unfolding startOrderTask_def completeOrderTask_def
    io_bind_ok[where m = "initAPIDB e", OF i]
  using c n x t by (auto simp: io_bind_apply split: option.splits)

end
